theory Spec2Isabelle
  imports Main "HOL-Library.Word"
begin

unbundle bit_operations_syntax

section \<open>VGA text streaming driver: data model\<close>

text \<open>
  A shallow embedding of \<^verbatim>\<open>src/hardware/vga_textstream.cpp\<close> and
  \<^verbatim>\<open>include/vga_textstream.h\<close>. The class \<^verbatim>\<open>VGATextStream\<close> is a
  record that every member function takes and returns; the emulator's video registers and
  text plane are parameters. Member names drop the trailing underscore of the C++ names.
\<close>

type_synonym u8 = "8 word"
type_synonym u16 = "16 word"
type_synonym PhysPt = "32 word"

text \<open>Protocol constants of the header.\<close>

definition STREAM_PROTOCOL_VERSION :: u16 where
  "STREAM_PROTOCOL_VERSION = 0x0001"

definition TEXTSTREAM_MAX_COLS :: int where
  "TEXTSTREAM_MAX_COLS = 132"

definition TEXTSTREAM_MAX_ROWS :: int where
  "TEXTSTREAM_MAX_ROWS = 60"

text \<open>
  \<^verbatim>\<open>enum class StreamChannel : uint8_t\<close>, \<^verbatim>\<open>ControlMsg\<close> and \<^verbatim>\<open>StreamCap\<close>:
  the code converts them to and from bytes with \<^verbatim>\<open>static_cast\<close>, for any byte value,
  so they are bytes here, with the enumerators as named constants.
\<close>

definition CONTROL :: u8 where "CONTROL = 0x00"
definition TEXT_OUT :: u8 where "TEXT_OUT = 0x01"
definition KEYBOARD_IN :: u8 where "KEYBOARD_IN = 0x02"
definition MOUSE_IN :: u8 where "MOUSE_IN = 0x03"

definition HELLO :: u8 where "HELLO = 0x01"
definition GOODBYE :: u8 where "GOODBYE = 0x02"
definition MODE_TEXT :: u8 where "MODE_TEXT = 0x10"
definition MODE_GRAPHICS :: u8 where "MODE_GRAPHICS = 0x11"
definition MODE_UNSUPPORTED :: u8 where "MODE_UNSUPPORTED = 0x12"
definition REFRESH :: u8 where "REFRESH = 0x20"
definition RESIZE :: u8 where "RESIZE = 0x21"

definition TEXT_OUTPUT :: u8 where "TEXT_OUTPUT = 0x01"
definition KEYBOARD_INPUT :: u8 where "KEYBOARD_INPUT = 0x02"
definition MOUSE_INPUT :: u8 where "MOUSE_INPUT = 0x03"
definition GRAPHICS_PNG :: u8 where "GRAPHICS_PNG = 0x10"
definition GRAPHICS_JPEG :: u8 where "GRAPHICS_JPEG = 0x11"
definition GRAPHICS_H264 :: u8 where "GRAPHICS_H264 = 0x12"
definition AUDIO_PCM :: u8 where "AUDIO_PCM = 0x20"
definition AUDIO_OPUS :: u8 where "AUDIO_OPUS = 0x21"

record TextCell =
  character :: u8
  attribute :: u8

record TextCursor =
  row :: u16
  col :: u16
  visible :: bool

text \<open>\<^verbatim>\<open>TextCursor::operator!=\<close>.\<close>

definition cursor_ne :: "TextCursor \<Rightarrow> TextCursor \<Rightarrow> bool" where
  "cursor_ne a b \<longleftrightarrow> row a \<noteq> row b \<or> col a \<noteq> col b \<or> visible a \<noteq> visible b"

datatype InputState = NORMAL | ESC | CSI | SS3

text \<open>
  Modelled from the spec: the emulator's video mode enumeration \<^verbatim>\<open>VGAModes\<close> of
  \<^verbatim>\<open>vga.h\<close>, which is not among the sources. The constructors are the modes this
  file names; every other mode of the emulator is \<open>M_OTHER\<close>.
\<close>

datatype VGAModes =
    M_TEXT | M_HERC_TEXT | M_TANDY_TEXT
  | M_CGA2 | M_CGA4 | M_CGA16 | M_EGA | M_VGA
  | M_LIN4 | M_LIN8 | M_LIN15 | M_LIN16 | M_LIN24 | M_LIN32
  | M_ERROR | M_OTHER nat

text \<open>
  Modelled from the spec: the global \<^verbatim>\<open>vga\<close> of \<^verbatim>\<open>vga.h\<close> (not among the
  sources), restricted to the members this file reads. The CRTC registers are the 8-bit
  hardware registers (the spec's 16-bit cursor position is \<open>high << 8 | low\<close>);
  \<open>display_start\<close> is an unsigned machine word, read as a natural number.
\<close>

record vga_type =
  mode :: VGAModes
  crtc_offset :: u8
  crtc_maximum_scan_line :: u8
  crtc_vertical_display_end :: u8
  crtc_cursor_location_high :: u8
  crtc_cursor_location_low :: u8
  crtc_cursor_start :: u8
  config_display_start :: nat

text \<open>
  The object. The two 60 x 132 arrays are functions from row and column; the code only
  indexes them below \<open>rows\<close> and \<open>cols\<close>, which never exceed the array bounds.
  The client socket is three fields: \<open>tx\<close>, the bytes the server has written to it so
  far; \<open>tx_room\<close>, how many more bytes the non-blocking socket accepts before a write
  comes back short; \<open>rx\<close>, the bytes the client has sent that are not yet read.
  \<open>kbd\<close> is the sequence of keycodes handed to \<^verbatim>\<open>BIOS_AddKeyToBuffer\<close>.
  The send mutex and the two threads are not modelled: each member function runs
  atomically.
\<close>

record VGATextStream =
  client_fd :: int
  tx :: "u8 list"
  tx_room :: nat
  rx :: "u8 list"
  kbd :: "u16 list"
  current :: "nat \<Rightarrow> nat \<Rightarrow> TextCell"
  previous :: "nat \<Rightarrow> nat \<Rightarrow> TextCell"
  cursor :: TextCursor
  prev_cursor :: TextCursor
  cols :: int
  rows :: int
  prev_cols :: int
  prev_rows :: int
  ansi_attr :: u8
  ansi_row :: int
  ansi_col :: int
  text_buffer :: "u8 list"
  input_state :: InputState
  csi_params :: "u8 list"
  last_mode :: VGAModes
  mode_notified :: bool
  client_wants_text :: bool
  client_wants_graphics :: bool
  client_wants_audio :: bool
  enabled :: bool
  force_redraw :: bool
  vsync_count :: int
  handshake_done :: bool

section \<open>Constant tables\<close>

definition cp437_to_unicode :: "u16 list" where
  "cp437_to_unicode = [
    0x0000, 0x263A, 0x263B, 0x2665, 0x2666, 0x2663, 0x2660, 0x2022,
    0x25D8, 0x25CB, 0x25D9, 0x2642, 0x2640, 0x266A, 0x266B, 0x263C,
    0x25BA, 0x25C4, 0x2195, 0x203C, 0x00B6, 0x00A7, 0x25AC, 0x21A8,
    0x2191, 0x2193, 0x2192, 0x2190, 0x221F, 0x2194, 0x25B2, 0x25BC,
    0x0020, 0x0021, 0x0022, 0x0023, 0x0024, 0x0025, 0x0026, 0x0027,
    0x0028, 0x0029, 0x002A, 0x002B, 0x002C, 0x002D, 0x002E, 0x002F,
    0x0030, 0x0031, 0x0032, 0x0033, 0x0034, 0x0035, 0x0036, 0x0037,
    0x0038, 0x0039, 0x003A, 0x003B, 0x003C, 0x003D, 0x003E, 0x003F,
    0x0040, 0x0041, 0x0042, 0x0043, 0x0044, 0x0045, 0x0046, 0x0047,
    0x0048, 0x0049, 0x004A, 0x004B, 0x004C, 0x004D, 0x004E, 0x004F,
    0x0050, 0x0051, 0x0052, 0x0053, 0x0054, 0x0055, 0x0056, 0x0057,
    0x0058, 0x0059, 0x005A, 0x005B, 0x005C, 0x005D, 0x005E, 0x005F,
    0x0060, 0x0061, 0x0062, 0x0063, 0x0064, 0x0065, 0x0066, 0x0067,
    0x0068, 0x0069, 0x006A, 0x006B, 0x006C, 0x006D, 0x006E, 0x006F,
    0x0070, 0x0071, 0x0072, 0x0073, 0x0074, 0x0075, 0x0076, 0x0077,
    0x0078, 0x0079, 0x007A, 0x007B, 0x007C, 0x007D, 0x007E, 0x2302,
    0x00C7, 0x00FC, 0x00E9, 0x00E2, 0x00E4, 0x00E0, 0x00E5, 0x00E7,
    0x00EA, 0x00EB, 0x00E8, 0x00EF, 0x00EE, 0x00EC, 0x00C4, 0x00C5,
    0x00C9, 0x00E6, 0x00C6, 0x00F4, 0x00F6, 0x00F2, 0x00FB, 0x00F9,
    0x00FF, 0x00D6, 0x00DC, 0x00A2, 0x00A3, 0x00A5, 0x20A7, 0x0192,
    0x00E1, 0x00ED, 0x00F3, 0x00FA, 0x00F1, 0x00D1, 0x00AA, 0x00BA,
    0x00BF, 0x2310, 0x00AC, 0x00BD, 0x00BC, 0x00A1, 0x00AB, 0x00BB,
    0x2591, 0x2592, 0x2593, 0x2502, 0x2524, 0x2561, 0x2562, 0x2556,
    0x2555, 0x2563, 0x2551, 0x2557, 0x255D, 0x255C, 0x255B, 0x2510,
    0x2514, 0x2534, 0x252C, 0x251C, 0x2500, 0x253C, 0x255E, 0x255F,
    0x255A, 0x2554, 0x2569, 0x2566, 0x2560, 0x2550, 0x256C, 0x2567,
    0x2568, 0x2564, 0x2565, 0x2559, 0x2558, 0x2552, 0x2553, 0x256B,
    0x256A, 0x2518, 0x250C, 0x2588, 0x2584, 0x258C, 0x2590, 0x2580,
    0x03B1, 0x00DF, 0x0393, 0x03C0, 0x03A3, 0x03C3, 0x00B5, 0x03C4,
    0x03A6, 0x0398, 0x03A9, 0x03B4, 0x221E, 0x03C6, 0x03B5, 0x2229,
    0x2261, 0x00B1, 0x2265, 0x2264, 0x2320, 0x2321, 0x00F7, 0x2248,
    0x00B0, 0x2219, 0x00B7, 0x221A, 0x207F, 0x00B2, 0x25A0, 0x00A0]"

definition vga_fg :: "int list" where
  "vga_fg = [30,34,32,36,31,35,33,37,90,94,92,96,91,95,93,97]"

definition vga_bg :: "int list" where
  "vga_bg = [40,44,42,46,41,45,43,47]"

definition ascii_scancode :: "u8 list" where
  "ascii_scancode = [
    0x00,0x1E,0x30,0x2E,0x20,0x12,0x21,0x22, 0x0E,0x0F,0x1C,0x25,0x26,0x1C,0x31,0x18,
    0x19,0x10,0x13,0x1F,0x14,0x16,0x2F,0x11, 0x2D,0x15,0x2C,0x01,0x2B,0x1B,0x07,0x0C,
    0x39,0x02,0x28,0x04,0x05,0x06,0x08,0x28, 0x0A,0x0B,0x09,0x0D,0x33,0x0C,0x34,0x35,
    0x0B,0x02,0x03,0x04,0x05,0x06,0x07,0x08, 0x09,0x0A,0x27,0x27,0x33,0x0D,0x34,0x35,
    0x03,0x1E,0x30,0x2E,0x20,0x12,0x21,0x22, 0x23,0x17,0x24,0x25,0x26,0x32,0x31,0x18,
    0x19,0x10,0x13,0x1F,0x14,0x16,0x2F,0x11, 0x2D,0x15,0x2C,0x1A,0x2B,0x1B,0x07,0x0C,
    0x29,0x1E,0x30,0x2E,0x20,0x12,0x21,0x22, 0x23,0x17,0x24,0x25,0x26,0x32,0x31,0x18,
    0x19,0x10,0x13,0x1F,0x14,0x16,0x2F,0x11, 0x2D,0x15,0x2C,0x1A,0x2B,0x1B,0x29,0x0E]"

section \<open>Protocol framing\<close>

text \<open>
  \<^verbatim>\<open>write(client_fd_, data, len)\<close> on the non-blocking socket: the socket takes as
  many bytes as it has room for and returns their number, or \<open>-1\<close> when it takes none of
  a non-empty buffer.
\<close>

definition sock_write :: "u8 list \<Rightarrow> VGATextStream \<Rightarrow> int \<times> VGATextStream" where
  "sock_write data s =
     (let n = min (length data) (tx_room s) in
      (if n = 0 \<and> data \<noteq> [] then -1 else int n,
       s\<lparr>tx := tx s @ take n data, tx_room := tx_room s - n\<rparr>))"

text \<open>The four header bytes \<^verbatim>\<open>SendMessage\<close> builds from the channel and \<open>len\<close>.\<close>

definition frame_header :: "u8 \<Rightarrow> nat \<Rightarrow> u8 list" where
  "frame_header channel len =
     [channel,
      of_nat (drop_bit 16 len AND 0xFF),
      of_nat (drop_bit 8 len AND 0xFF),
      of_nat (len AND 0xFF)]"

text \<open>
  \<^verbatim>\<open>SendMessage\<close>. The buffer and its length are one list (every caller passes a
  vector's data and size, so the pointer is non-null whenever \<open>len > 0\<close>).
\<close>

definition SendMessage :: "u8 \<Rightarrow> u8 list \<Rightarrow> VGATextStream \<Rightarrow> VGATextStream" where
  "SendMessage channel data s =
     (let len = length data in
      if client_fd s < 0 \<or> len > 0xFFFFFF then s
      else
        (case sock_write (frame_header channel len) s of
           (sent, s1) \<Rightarrow>
             if sent \<noteq> 4 then s1
             else if len > 0 then snd (sock_write data s1)
             else s1))"

definition SendControl :: "u8 \<Rightarrow> u8 list \<Rightarrow> VGATextStream \<Rightarrow> VGATextStream" where
  "SendControl msg data s = SendMessage CONTROL (msg # data) s"

text \<open>
  \<^verbatim>\<open>read(client_fd_, buf, k)\<close>: up to \<open>k\<close> of the bytes that have arrived. The
  result is the bytes read and the bytes left; the C return value is the number of bytes
  read (or \<open>-1\<close>/\<open>0\<close> when there are none, which the callers treat alike).
\<close>

definition sock_read :: "nat \<Rightarrow> u8 list \<Rightarrow> u8 list \<times> u8 list" where
  "sock_read k buf = (take k buf, drop k buf)"

text \<open>
  The payload loop of \<^verbatim>\<open>ReadMessage\<close>: \<open>got\<close> is the part of the payload filled so
  far (its length is \<open>total\<close>). \<open>None\<close> is \<^verbatim>\<open>return false\<close>.
\<close>

function read_payload :: "nat \<Rightarrow> u8 list \<Rightarrow> u8 list \<Rightarrow> (u8 list \<times> u8 list) option" where
  "read_payload len got buf =
     (if length got < len then
        (case sock_read (len - length got) buf of
           (chunk, buf') \<Rightarrow>
             if length chunk = 0 then None
             else read_payload len (got @ chunk) buf')
      else Some (got, buf))"
  by pat_completeness auto
termination
  by (relation "measure (\<lambda>(len, got, buf). len - length got)")
     (auto simp: sock_read_def min_def neq_Nil_conv)

declare read_payload.simps [simp del]

text \<open>
  \<^verbatim>\<open>ReadMessage\<close>: \<open>None\<close> is \<^verbatim>\<open>return false\<close>, \<open>Some (channel, payload)\<close> is
  \<^verbatim>\<open>return true\<close> with the two out-parameters. Bytes consumed by a failed read are
  gone from the socket.
\<close>

definition ReadMessage :: "VGATextStream \<Rightarrow> (u8 \<times> u8 list) option \<times> VGATextStream" where
  "ReadMessage s =
     (if client_fd s < 0 then (None, s)
      else
        (case sock_read 4 (rx s) of
           (header, buf) \<Rightarrow>
             if length header \<noteq> 4 then (None, s\<lparr>rx := buf\<rparr>)
             else
               (let channel = header ! 0;
                    len = push_bit 16 (unat (header ! 1)) OR push_bit 8 (unat (header ! 2))
                            OR unat (header ! 3)
                in case read_payload len [] buf of
                     None \<Rightarrow> (None, s\<lparr>rx := []\<rparr>)
                   | Some (payload, buf') \<Rightarrow> (Some (channel, payload), s\<lparr>rx := buf'\<rparr>))))"

section \<open>Session management\<close>

definition IsTextMode :: "vga_type \<Rightarrow> bool" where
  "IsTextMode vga \<longleftrightarrow> mode vga = M_TEXT \<or> mode vga = M_HERC_TEXT \<or> mode vga = M_TANDY_TEXT"

definition IsGraphicsMode :: "vga_type \<Rightarrow> bool" where
  "IsGraphicsMode vga =
     (case mode vga of
        M_CGA2 \<Rightarrow> True | M_CGA4 \<Rightarrow> True | M_CGA16 \<Rightarrow> True
      | M_EGA \<Rightarrow> True | M_VGA \<Rightarrow> True
      | M_LIN4 \<Rightarrow> True | M_LIN8 \<Rightarrow> True | M_LIN15 \<Rightarrow> True
      | M_LIN16 \<Rightarrow> True | M_LIN24 \<Rightarrow> True | M_LIN32 \<Rightarrow> True
      | _ \<Rightarrow> False)"

definition SendHello :: "VGATextStream \<Rightarrow> VGATextStream" where
  "SendHello s =
     (let caps = [TEXT_OUTPUT, KEYBOARD_INPUT, MOUSE_INPUT];
          payload = [ucast (drop_bit 8 STREAM_PROTOCOL_VERSION AND 0xFF),
                     ucast (STREAM_PROTOCOL_VERSION AND 0xFF),
                     of_nat (length caps)] @ caps
      in SendControl HELLO payload s)"

definition SendModeNotification :: "vga_type \<Rightarrow> VGATextStream \<Rightarrow> VGATextStream" where
  "SendModeNotification vga s =
     (if \<not> handshake_done s then s
      else if IsTextMode vga then
        (let data = [word_of_int (drop_bit 8 (cols s) AND 0xFF),
                     word_of_int (cols s AND 0xFF),
                     word_of_int (drop_bit 8 (rows s) AND 0xFF),
                     word_of_int (rows s AND 0xFF)]
         in (SendControl MODE_TEXT data s)\<lparr>mode_notified := True\<rparr>)
      else if IsGraphicsMode vga then
        (SendControl MODE_UNSUPPORTED [] s)\<lparr>mode_notified := True\<rparr>
      else s)"

text \<open>The \<^verbatim>\<open>switch\<close> on one capability byte in \<^verbatim>\<open>HandleHello\<close>.\<close>

definition hello_cap :: "u8 \<Rightarrow> VGATextStream \<Rightarrow> VGATextStream" where
  "hello_cap cap s =
     (if cap = TEXT_OUTPUT then s\<lparr>client_wants_text := True\<rparr>
      else if cap = GRAPHICS_PNG \<or> cap = GRAPHICS_JPEG \<or> cap = GRAPHICS_H264 then
        s\<lparr>client_wants_graphics := True\<rparr>
      else if cap = AUDIO_PCM \<or> cap = AUDIO_OPUS then s\<lparr>client_wants_audio := True\<rparr>
      else s)"

text \<open>
  The capability loop
  \<^verbatim>\<open>for (i = 0; i < cap_count && (3 + i) < payload.size(); i++)\<close>, from index \<open>i\<close> on.
\<close>

function hello_caps :: "u8 list \<Rightarrow> nat \<Rightarrow> nat \<Rightarrow> VGATextStream \<Rightarrow> VGATextStream" where
  "hello_caps payload cap_count i s =
     (if i < cap_count \<and> 3 + i < length payload then
        hello_caps payload cap_count (i + 1) (hello_cap (payload ! (3 + i)) s)
      else s)"
  by pat_completeness auto
termination
  by (relation "measure (\<lambda>(payload, cap_count, i, s). cap_count - i)") auto

declare hello_caps.simps [simp del]

text \<open>\<^verbatim>\<open>HandleHello\<close>; the client's version is only logged.\<close>

definition HandleHello :: "vga_type \<Rightarrow> u8 list \<Rightarrow> VGATextStream \<Rightarrow> VGATextStream" where
  "HandleHello vga payload s =
     (if length payload < 3 then s
      else
        (let cap_count = payload ! 2;
             s1 = s\<lparr>client_wants_text := False, client_wants_graphics := False,
                     client_wants_audio := False\<rparr>;
             s2 = hello_caps payload (unat cap_count) 0 s1;
             s3 = s2\<lparr>handshake_done := True\<rparr>
         in SendModeNotification vga s3))"

definition Invalidate :: "VGATextStream \<Rightarrow> VGATextStream" where
  "Invalidate s = s\<lparr>force_redraw := True, ansi_attr := 0xFF, ansi_row := -1, ansi_col := -1\<rparr>"

section \<open>Keyboard input parsing\<close>

text \<open>\<^verbatim>\<open>BIOS_AddKeyToBuffer\<close>, the emulator's keyboard sink: the call is recorded.\<close>

definition BIOS_AddKeyToBuffer :: "u16 \<Rightarrow> VGATextStream \<Rightarrow> VGATextStream" where
  "BIOS_AddKeyToBuffer keycode s = s\<lparr>kbd := kbd s @ [keycode]\<rparr>"

definition InjectKey :: "u8 \<Rightarrow> u8 \<Rightarrow> bool \<Rightarrow> VGATextStream \<Rightarrow> VGATextStream" where
  "InjectKey scancode ascii extended s =
     (let keycode = (if extended then push_bit 8 (ucast scancode :: u16) OR 0x00
                     else push_bit 8 (ucast scancode :: u16) OR ucast ascii)
      in BIOS_AddKeyToBuffer keycode s)"

text \<open>
  \<^verbatim>\<open>atoi\<close> on the parameter string, as the C library computes it:
  \<^verbatim>\<open>(int) strtol(str, NULL, 10)\<close> with a 64-bit \<^verbatim>\<open>long\<close>. The string holds
  only bytes \<open>0x30..0x3F\<close>, so there is no leading white space or sign to skip:
  \<open>atoi_from\<close> is the value of the leading run of decimal digits, \<^verbatim>\<open>strtol\<close>
  saturates it at \<^verbatim>\<open>LONG_MAX\<close>, and the conversion to \<^verbatim>\<open>int\<close> keeps the low 32
  bits as a two's complement number.
\<close>

fun atoi_from :: "int \<Rightarrow> u8 list \<Rightarrow> int" where
  "atoi_from acc [] = acc"
| "atoi_from acc (c # cs) =
     (if 0x30 \<le> c \<and> c \<le> 0x39 then atoi_from (acc * 10 + (uint c - 48)) cs else acc)"

definition strtol :: "u8 list \<Rightarrow> int" where
  "strtol str = min (atoi_from 0 str) 0x7FFFFFFFFFFFFFFF"

definition atoi :: "u8 list \<Rightarrow> int" where
  "atoi str = sint (word_of_int (strtol str) :: 32 word)"

text \<open>The \<^verbatim>\<open>switch (param)\<close> of the CSI final byte \<open>~\<close>.\<close>

definition csi_tilde :: "int \<Rightarrow> VGATextStream \<Rightarrow> VGATextStream" where
  "csi_tilde param s =
     (if param = 1 then InjectKey 0x47 0 True s
      else if param = 2 then InjectKey 0x52 0 True s
      else if param = 3 then InjectKey 0x53 0 True s
      else if param = 4 then InjectKey 0x4F 0 True s
      else if param = 5 then InjectKey 0x49 0 True s
      else if param = 6 then InjectKey 0x51 0 True s
      else if param = 11 then InjectKey 0x3B 0 False s
      else if param = 12 then InjectKey 0x3C 0 False s
      else if param = 13 then InjectKey 0x3D 0 False s
      else if param = 14 then InjectKey 0x3E 0 False s
      else if param = 15 then InjectKey 0x3F 0 False s
      else if param = 17 then InjectKey 0x40 0 False s
      else if param = 18 then InjectKey 0x41 0 False s
      else if param = 19 then InjectKey 0x42 0 False s
      else if param = 20 then InjectKey 0x43 0 False s
      else if param = 21 then InjectKey 0x44 0 False s
      else if param = 23 then InjectKey 0x85 0 False s
      else if param = 24 then InjectKey 0x86 0 False s
      else s)"

text \<open>The \<^verbatim>\<open>switch (byte)\<close> on a CSI final byte.\<close>

definition csi_final :: "u8 \<Rightarrow> VGATextStream \<Rightarrow> VGATextStream" where
  "csi_final byte s =
     (if byte = 0x41 then InjectKey 0x48 0 True s
      else if byte = 0x42 then InjectKey 0x50 0 True s
      else if byte = 0x43 then InjectKey 0x4D 0 True s
      else if byte = 0x44 then InjectKey 0x4B 0 True s
      else if byte = 0x48 then InjectKey 0x47 0 True s
      else if byte = 0x46 then InjectKey 0x4F 0 True s
      else if byte = 0x7E then
        csi_tilde (if csi_params s = [] then 0 else atoi (csi_params s)) s
      else s)"

text \<open>The \<^verbatim>\<open>switch (byte)\<close> of the SS3 state.\<close>

definition ss3_final :: "u8 \<Rightarrow> VGATextStream \<Rightarrow> VGATextStream" where
  "ss3_final byte s =
     (if byte = 0x41 then InjectKey 0x48 0 True s
      else if byte = 0x42 then InjectKey 0x50 0 True s
      else if byte = 0x43 then InjectKey 0x4D 0 True s
      else if byte = 0x44 then InjectKey 0x4B 0 True s
      else if byte = 0x50 then InjectKey 0x3B 0 False s
      else if byte = 0x51 then InjectKey 0x3C 0 False s
      else if byte = 0x52 then InjectKey 0x3D 0 False s
      else if byte = 0x53 then InjectKey 0x3E 0 False s
      else s)"

definition ProcessInputByte :: "u8 \<Rightarrow> VGATextStream \<Rightarrow> VGATextStream" where
  "ProcessInputByte byte s =
     (case input_state s of
        NORMAL \<Rightarrow>
          if byte = 0x1B then s\<lparr>input_state := ESC\<rparr>
          else if byte = 0x7F then InjectKey 0x0E 0x08 False s
          else if byte < 0x20 then
            (if byte = 0x0D then InjectKey 0x1C 0x0D False s
             else if byte = 0x09 then InjectKey 0x0F 0x09 False s
             else if byte = 0x08 then InjectKey 0x0E 0x08 False s
             else if byte \<ge> 1 \<and> byte \<le> 26 then
               (let sc = ascii_scancode ! (97 + unat byte - 1) in InjectKey sc byte False s)
             else s)
          else if byte < 0x80 then
            (let sc = ascii_scancode ! unat byte in InjectKey sc byte False s)
          else s
      | ESC \<Rightarrow>
          if byte = 0x5B then s\<lparr>input_state := CSI, csi_params := []\<rparr>
          else if byte = 0x4F then s\<lparr>input_state := SS3\<rparr>
          else
            (let s1 = (if byte \<ge> 0x61 \<and> byte \<le> 0x7A then
                         (let sc = ascii_scancode ! unat byte
                          in BIOS_AddKeyToBuffer (push_bit 8 (ucast sc :: u16)) s)
                       else InjectKey 0x01 0x1B False s)
             in s1\<lparr>input_state := NORMAL\<rparr>)
      | CSI \<Rightarrow>
          if byte \<ge> 0x30 \<and> byte \<le> 0x3F then s\<lparr>csi_params := csi_params s @ [byte]\<rparr>
          else if byte \<ge> 0x40 \<and> byte \<le> 0x7E then
            (csi_final byte s)\<lparr>csi_params := [], input_state := NORMAL\<rparr>
          else s\<lparr>input_state := NORMAL\<rparr>
      | SS3 \<Rightarrow> (ss3_final byte s)\<lparr>input_state := NORMAL\<rparr>)"

text \<open>\<^verbatim>\<open>HandleKeyboardInput\<close>: every byte of the payload, in order.\<close>

definition HandleKeyboardInput :: "u8 list \<Rightarrow> VGATextStream \<Rightarrow> VGATextStream" where
  "HandleKeyboardInput data s = fold ProcessInputByte data s"

definition HandleMouseInput :: "u8 list \<Rightarrow> VGATextStream \<Rightarrow> VGATextStream" where
  "HandleMouseInput data s = s"

text \<open>
  \<^verbatim>\<open>HandleControlInput\<close>. Closing the client socket is \<open>client_fd := -1\<close>; a RESIZE
  is only logged.
\<close>

definition HandleControlInput :: "vga_type \<Rightarrow> u8 list \<Rightarrow> VGATextStream \<Rightarrow> VGATextStream" where
  "HandleControlInput vga data s =
     (if length data < 1 then s
      else
        (let msg = data ! 0 in
         if msg = HELLO then HandleHello vga (drop 1 data) s
         else if msg = GOODBYE then s\<lparr>client_fd := -1, handshake_done := False\<rparr>
         else if msg = REFRESH then Invalidate s
         else s))"

definition ProcessMessage :: "vga_type \<Rightarrow> u8 \<Rightarrow> u8 list \<Rightarrow> VGATextStream \<Rightarrow> VGATextStream" where
  "ProcessMessage vga channel payload s =
     (if channel = CONTROL then HandleControlInput vga payload s
      else if channel = KEYBOARD_IN then HandleKeyboardInput payload s
      else if channel = MOUSE_IN then HandleMouseInput payload s
      else s)"

section \<open>ANSI output generation\<close>

text \<open>The decimal digits \<^verbatim>\<open>%d\<close> prints for a natural number, then for an \<^verbatim>\<open>int\<close>.\<close>

fun dec_digits :: "nat \<Rightarrow> u8 list" where
  "dec_digits n =
     (if n < 10 then [of_nat (48 + n)]
      else dec_digits (n div 10) @ [of_nat (48 + n mod 10)])"

declare dec_digits.simps [simp del]

definition printf_d :: "int \<Rightarrow> u8 list" where
  "printf_d i = (if i < 0 then 0x2D # dec_digits (nat (- i)) else dec_digits (nat i))"

text \<open>
  The bytes \<^verbatim>\<open>EmitMoveCursor\<close> formats. The callers pass a loop index below 60 or
  132, or a 16-bit cursor coordinate, so the text is at most 14 characters and fits the
  16-byte buffer of \<^verbatim>\<open>snprintf\<close>.
\<close>

definition move_bytes :: "int \<Rightarrow> int \<Rightarrow> u8 list" where
  "move_bytes r c = [0x1B, 0x5B] @ printf_d (r + 1) @ [0x3B] @ printf_d (c + 1) @ [0x48]"

definition EmitMoveCursor :: "int \<Rightarrow> int \<Rightarrow> VGATextStream \<Rightarrow> VGATextStream" where
  "EmitMoveCursor r c s =
     s\<lparr>text_buffer := text_buffer s @ move_bytes r c, ansi_row := r, ansi_col := c\<rparr>"

text \<open>The bytes \<^verbatim>\<open>EmitSetAttribute\<close> formats for an attribute.\<close>

definition sgr_bytes :: "u8 \<Rightarrow> u8 list" where
  "sgr_bytes attr =
     (let fg = vga_fg ! unat (attr AND 0x0F);
          bg = vga_bg ! unat (drop_bit 4 attr AND 0x07);
          blink = (attr AND 0x80 \<noteq> 0)
      in if blink then
           [0x1B, 0x5B, 0x30, 0x3B] @ printf_d fg @ [0x3B] @ printf_d bg @ [0x3B, 0x35, 0x6D]
         else
           [0x1B, 0x5B, 0x30, 0x3B] @ printf_d fg @ [0x3B] @ printf_d bg @ [0x6D])"

definition EmitSetAttribute :: "u8 \<Rightarrow> VGATextStream \<Rightarrow> VGATextStream" where
  "EmitSetAttribute attr s =
     s\<lparr>text_buffer := text_buffer s @ sgr_bytes attr, ansi_attr := attr\<rparr>"

text \<open>The UTF-8 bytes \<^verbatim>\<open>EmitCharacter\<close> pushes for a CP437 byte.\<close>

definition utf8_bytes :: "u8 \<Rightarrow> u8 list" where
  "utf8_bytes ch =
     (let u = cp437_to_unicode ! unat ch in
      if u < 0x80 then [ucast u]
      else if u < 0x800 then
        [ucast (0xC0 OR drop_bit 6 u), ucast (0x80 OR (u AND 0x3F))]
      else
        [ucast (0xE0 OR drop_bit 12 u), ucast (0x80 OR (drop_bit 6 u AND 0x3F)),
         ucast (0x80 OR (u AND 0x3F))])"

definition EmitCharacter :: "u8 \<Rightarrow> VGATextStream \<Rightarrow> VGATextStream" where
  "EmitCharacter ch s =
     (let s1 = s\<lparr>text_buffer := text_buffer s @ utf8_bytes ch\<rparr>;
          s2 = s1\<lparr>ansi_col := ansi_col s1 + 1\<rparr>
      in if ansi_col s2 \<ge> cols s2 then s2\<lparr>ansi_col := 0, ansi_row := ansi_row s2 + 1\<rparr>
         else s2)"

definition EmitClearScreen :: "VGATextStream \<Rightarrow> VGATextStream" where
  "EmitClearScreen s =
     (let s1 = s\<lparr>text_buffer := text_buffer s @ [0x1B, 0x5B, 0x3F, 0x32, 0x35, 0x6C]\<rparr>;
          s2 = s1\<lparr>text_buffer := text_buffer s1 @ [0x1B, 0x5B, 0x32, 0x4A, 0x1B, 0x5B, 0x48]\<rparr>
      in s2\<lparr>ansi_row := 0, ansi_col := 0\<rparr>)"

definition EmitCursorVisibility :: "bool \<Rightarrow> VGATextStream \<Rightarrow> VGATextStream" where
  "EmitCursorVisibility vis s =
     (let seq = (if vis then [0x1B, 0x5B, 0x3F, 0x32, 0x35, 0x68]
                 else [0x1B, 0x5B, 0x3F, 0x32, 0x35, 0x6C])
      in s\<lparr>text_buffer := text_buffer s @ seq\<rparr>)"

definition FlushTextOutput :: "VGATextStream \<Rightarrow> VGATextStream" where
  "FlushTextOutput s =
     (if text_buffer s = [] then s else SendMessage TEXT_OUT (text_buffer s) s)"

text \<open>
  The \<^verbatim>\<open>while\<close> loop of the full redraw that steps \<open>last_col\<close> down over trailing
  spaces on a black background; \<open>cells\<close> is the row \<^verbatim>\<open>current_[row]\<close>.
\<close>

function find_last_col :: "(nat \<Rightarrow> TextCell) \<Rightarrow> int \<Rightarrow> int" where
  "find_last_col cells last_col =
     (if last_col \<ge> 0 \<and> character (cells (nat last_col)) = 0x20
         \<and> attribute (cells (nat last_col)) AND 0x70 = 0
      then find_last_col cells (last_col - 1)
      else last_col)"
  by pat_completeness auto
termination
  by (relation "measure (\<lambda>(cells, last_col). nat (last_col + 1))") auto

declare find_last_col.simps [simp del]

text \<open>The body of the full redraw's loop over the columns \<open>0..last_col\<close>.\<close>

definition full_cell :: "nat \<Rightarrow> nat \<Rightarrow> VGATextStream \<Rightarrow> VGATextStream" where
  "full_cell r c s =
     (let curr = current s r c;
          s1 = (if attribute curr \<noteq> ansi_attr s then EmitSetAttribute (attribute curr) s
                else s)
      in EmitCharacter (character curr) s1)"

text \<open>
  The body of the full redraw's loop over the rows. Neither \<open>rows\<close> nor \<open>cols\<close> is
  written inside the loops of this section, so a \<^verbatim>\<open>for\<close> loop up to one of them is
  a fold over the indices below its value on entry.
\<close>

definition full_row :: "nat \<Rightarrow> VGATextStream \<Rightarrow> VGATextStream" where
  "full_row r s =
     (let s1 = (if r > 0 then
                  (let s' = (if ansi_attr s \<noteq> 0x07 then EmitSetAttribute 0x07 s else s)
                   in s'\<lparr>text_buffer := text_buffer s' @ [0x0D, 0x0A]\<rparr>)
                else s);
          last_col = find_last_col (current s1 r) (cols s1 - 1);
          s2 = fold (full_cell r) [0..<nat (last_col + 1)] s1
      in if ansi_attr s2 \<noteq> 0x07 \<and> last_col < cols s2 - 1 then EmitSetAttribute 0x07 s2
         else s2)"

text \<open>
  The body of the differential update's inner loop; the loop carries the object and the
  locals \<open>write_row\<close>, \<open>write_col\<close>.
\<close>

definition diff_cell ::
  "nat \<Rightarrow> nat \<Rightarrow> VGATextStream \<times> int \<times> int \<Rightarrow> VGATextStream \<times> int \<times> int" where
  "diff_cell r c acc =
     (case acc of (s, write_row, write_col) \<Rightarrow>
        (let curr = current s r c; prev = previous s r c in
         if curr \<noteq> prev then
           (let s1 = (if int r \<noteq> write_row \<or> int c \<noteq> write_col
                      then EmitMoveCursor (int r) (int c) s else s);
                s2 = (if attribute curr \<noteq> ansi_attr s1
                      then EmitSetAttribute (attribute curr) s1 else s1);
                s3 = EmitCharacter (character curr) s2;
                write_row' = int r;
                write_col' = int c + 1
            in if write_col' \<ge> cols s3 then (s3, write_row' + 1, 0)
               else (s3, write_row', write_col'))
         else (s, write_row, write_col)))"

definition diff_row ::
  "nat \<Rightarrow> VGATextStream \<times> int \<times> int \<Rightarrow> VGATextStream \<times> int \<times> int" where
  "diff_row r acc = fold (diff_cell r) [0..<nat (cols (fst acc))] acc"

definition GenerateTextOutput :: "VGATextStream \<Rightarrow> VGATextStream" where
  "GenerateTextOutput s =
     (let s0 = s\<lparr>text_buffer := []\<rparr>;
          full = force_redraw s0;
          s1 = s0\<lparr>force_redraw := False\<rparr>;
          s2 = (if full then
                  (let a = EmitSetAttribute 0x07 (EmitClearScreen s1);
                       b = fold full_row [0..<nat (rows a)] a
                   in b\<lparr>ansi_row := rows b - 1, ansi_col := 0\<rparr>)
                else fst (fold diff_row [0..<nat (rows s1)] (s1, -1, -1)));
          s3 = (if cursor_ne (cursor s2) (prev_cursor s2) then
                  (let a = (if visible (cursor s2)
                            then EmitMoveCursor (uint (row (cursor s2))) (uint (col (cursor s2))) s2
                            else s2)
                   in if visible (cursor a) \<noteq> visible (prev_cursor a)
                      then EmitCursorVisibility (visible (cursor a)) a else a)
                else s2);
          s4 = FlushTextOutput s3
      in s4\<lparr>previous := current s4, prev_cursor := cursor s4\<rparr>)"

section \<open>Text buffer snapshot\<close>

text \<open>
  The body of the snapshot's inner loop: two bytes of the text plane into one cell.
  \<open>mem_readb\<close> is the emulator's memory read, a parameter.
\<close>

definition snapshot_cell ::
  "(PhysPt \<Rightarrow> u8) \<Rightarrow> PhysPt \<Rightarrow> nat \<Rightarrow> nat \<Rightarrow> VGATextStream \<Rightarrow> VGATextStream" where
  "snapshot_cell mem_readb base r c s =
     (let addr = base + word_of_int ((int r * cols s + int c) * 2);
          cell = \<lparr>character = mem_readb addr, attribute = mem_readb (addr + 1)\<rparr>
      in s\<lparr>current := (current s)(r := (current s r)(c := cell))\<rparr>)"

text \<open>The column and row counts \<^verbatim>\<open>SnapshotTextBuffer\<close> computes from the CRTC registers.\<close>

definition snapshot_cols :: "vga_type \<Rightarrow> int" where
  "snapshot_cols vga =
     (let cols1 = (if crtc_offset vga > 0 then int (unat (crtc_offset vga) * 2) else 80)
      in if cols1 > TEXTSTREAM_MAX_COLS then TEXTSTREAM_MAX_COLS else cols1)"

definition snapshot_rows :: "vga_type \<Rightarrow> int" where
  "snapshot_rows vga =
     (let max_sl = unat (crtc_maximum_scan_line vga AND 0x1F);
          rows1 = (if max_sl > 0
                   then int ((unat (crtc_vertical_display_end vga) + 1) div (max_sl + 1))
                   else 25);
          rows2 = (if rows1 > TEXTSTREAM_MAX_ROWS then TEXTSTREAM_MAX_ROWS else rows1)
      in if rows2 < 24 then 25 else rows2)"

definition SnapshotTextBuffer ::
  "vga_type \<Rightarrow> (PhysPt \<Rightarrow> u8) \<Rightarrow> VGATextStream \<Rightarrow> VGATextStream" where
  "SnapshotTextBuffer vga mem_readb s =
     (let s1 = s\<lparr>cols := snapshot_cols vga, rows := snapshot_rows vga\<rparr>;
          s2 = (if cols s1 \<noteq> prev_cols s1 \<or> rows s1 \<noteq> prev_rows s1 then
                  SendModeNotification vga
                    (s1\<lparr>force_redraw := True, prev_cols := cols s1, prev_rows := rows s1\<rparr>)
                else s1);
          base = (of_nat (0xB8000 + config_display_start vga * 2) :: PhysPt)
      in fold (\<lambda>r t. fold (snapshot_cell mem_readb base r) [0..<nat (cols t)] t)
           [0..<nat (rows s2)] s2)"

definition SnapshotCursor :: "vga_type \<Rightarrow> VGATextStream \<Rightarrow> VGATextStream" where
  "SnapshotCursor vga s =
     (let pos = push_bit 8 (unat (crtc_cursor_location_high vga))
                  OR unat (crtc_cursor_location_low vga)
      in s\<lparr>cursor :=
            \<lparr>row = (if cols s > 0 then of_nat (pos div nat (cols s)) else 0),
             col = (if cols s > 0 then of_nat (pos mod nat (cols s)) else 0),
             visible = (crtc_cursor_start vga AND 0x20 = 0)\<rparr>\<rparr>)"

section \<open>VSync handler\<close>

text \<open>
  \<^verbatim>\<open>OnVSync\<close>. \<open>vsync_count\<close> starts at 0 and only grows, so \<^verbatim>\<open>% 120\<close> is
  \<open>mod 120\<close>; the graphics branch is empty in the source.
\<close>

definition OnVSync :: "vga_type \<Rightarrow> (PhysPt \<Rightarrow> u8) \<Rightarrow> VGATextStream \<Rightarrow> VGATextStream" where
  "OnVSync vga mem_readb s =
     (if \<not> enabled s \<or> client_fd s < 0 \<or> \<not> handshake_done s then s
      else
        (let s1 = s\<lparr>vsync_count := vsync_count s + 1\<rparr>;
             current_mode = mode vga;
             s2 = (if current_mode \<noteq> last_mode s1 then
                     (SendModeNotification vga
                        (s1\<lparr>last_mode := current_mode, mode_notified := False\<rparr>))
                       \<lparr>force_redraw := True\<rparr>
                   else s1)
         in if IsTextMode vga \<and> client_wants_text s2 then
              (let s3 = (if vsync_count s2 mod 120 = 0 then s2\<lparr>force_redraw := True\<rparr>
                         else s2)
               in GenerateTextOutput (SnapshotCursor vga (SnapshotTextBuffer vga mem_readb s3)))
            else s2))"

section \<open>The rendered pass as a sequence of items\<close>

text \<open>
  A second description of what one \<^verbatim>\<open>GenerateTextOutput\<close> pass emits, following the
  words of the specification (section 4.4) rather than the code: the payload as a
  sequence of items. \<open>Glyph a ch\<close> is the character \<open>ch\<close> of a cell with attribute \<open>a\<close>;
  \<open>ClearScreen\<close> is clear-screen followed by home. \<open>item_bytes\<close> gives the bytes of an
  item.

  Full redraw: hide cursor, clear, the SGR of \<open>0x07\<close>, then row by row (\<open>row_items\<close>,
  with the last emitted attribute \<open>a\<close> carried along): for a row after the first, the
  SGR of \<open>0x07\<close> if \<open>a\<close> is not \<open>0x07\<close>, then the newline; for each cell up to the last
  one that is not a space on black, its SGR if its attribute differs from the last
  emitted one, then its character (\<open>run_items\<close>); then the SGR of \<open>0x07\<close> if the last
  emitted attribute is not \<open>0x07\<close> and the row's content stops short of the last column.

  Differential update (\<open>walk_items\<close>, over the cells in row-major order, with the last
  emitted attribute \<open>a\<close> and the write head \<open>w\<close>): for each cell that differs from the
  previous frame, a cursor move if the write head is elsewhere, the cell's SGR if its
  attribute differs from the last emitted one, then its character; the write head
  advances by \<open>next_head\<close>.

  Then the cursor (\<open>cursor_items\<close>): if it changed, a move when it is visible, and its
  visibility when that changed.
\<close>

datatype item =
    Sgr u8 | Glyph u8 u8 | Newline | Move int int | ClearScreen | CursorVis bool

fun item_bytes :: "item \<Rightarrow> u8 list" where
  "item_bytes (Sgr a) = sgr_bytes a"
| "item_bytes (Glyph a ch) = utf8_bytes ch"
| "item_bytes Newline = [0x0D, 0x0A]"
| "item_bytes (Move r c) = move_bytes r c"
| "item_bytes ClearScreen = [0x1B, 0x5B, 0x32, 0x4A, 0x1B, 0x5B, 0x48]"
| "item_bytes (CursorVis v) =
     (if v then [0x1B, 0x5B, 0x3F, 0x32, 0x35, 0x68] else [0x1B, 0x5B, 0x3F, 0x32, 0x35, 0x6C])"

definition items_bytes :: "item list \<Rightarrow> u8 list" where
  "items_bytes its = concat (map item_bytes its)"

fun run_items :: "u8 \<Rightarrow> TextCell list \<Rightarrow> item list" where
  "run_items a [] = []"
| "run_items a (x # xs) =
     (if attribute x \<noteq> a then [Sgr (attribute x)] else [])
     @ Glyph (attribute x) (character x) # run_items (attribute x) xs"

fun run_attr :: "u8 \<Rightarrow> TextCell list \<Rightarrow> u8" where
  "run_attr a [] = a"
| "run_attr a (x # xs) = run_attr (attribute x) xs"

definition row_cells :: "(nat \<Rightarrow> nat \<Rightarrow> TextCell) \<Rightarrow> int \<Rightarrow> nat \<Rightarrow> TextCell list" where
  "row_cells cur ncols r = map (cur r) [0..<nat (find_last_col (cur r) (ncols - 1) + 1)]"

definition row_start_attr :: "nat \<Rightarrow> u8 \<Rightarrow> u8" where
  "row_start_attr r a = (if r > 0 then 0x07 else a)"

definition row_resets :: "(nat \<Rightarrow> nat \<Rightarrow> TextCell) \<Rightarrow> int \<Rightarrow> nat \<Rightarrow> u8 \<Rightarrow> bool" where
  "row_resets cur ncols r a \<longleftrightarrow>
     run_attr (row_start_attr r a) (row_cells cur ncols r) \<noteq> 0x07
     \<and> find_last_col (cur r) (ncols - 1) < ncols - 1"

definition row_items :: "(nat \<Rightarrow> nat \<Rightarrow> TextCell) \<Rightarrow> int \<Rightarrow> nat \<Rightarrow> u8 \<Rightarrow> item list" where
  "row_items cur ncols r a =
     (if r > 0 then (if a \<noteq> 0x07 then [Sgr 0x07] else []) @ [Newline] else [])
     @ run_items (row_start_attr r a) (row_cells cur ncols r)
     @ (if row_resets cur ncols r a then [Sgr 0x07] else [])"

definition row_end_attr :: "(nat \<Rightarrow> nat \<Rightarrow> TextCell) \<Rightarrow> int \<Rightarrow> nat \<Rightarrow> u8 \<Rightarrow> u8" where
  "row_end_attr cur ncols r a =
     (if row_resets cur ncols r a then 0x07
      else run_attr (row_start_attr r a) (row_cells cur ncols r))"

fun rows_items :: "(nat \<Rightarrow> nat \<Rightarrow> TextCell) \<Rightarrow> int \<Rightarrow> u8 \<Rightarrow> nat list \<Rightarrow> item list" where
  "rows_items cur ncols a [] = []"
| "rows_items cur ncols a (r # rs) =
     row_items cur ncols r a @ rows_items cur ncols (row_end_attr cur ncols r a) rs"

definition full_items :: "VGATextStream \<Rightarrow> item list" where
  "full_items s =
     [CursorVis False, ClearScreen, Sgr 0x07]
     @ rows_items (current s) (cols s) 0x07 [0..<nat (rows s)]"


definition next_head :: "int \<Rightarrow> nat \<Rightarrow> nat \<Rightarrow> int \<times> int" where
  "next_head ncols r c = (if int c + 1 \<ge> ncols then (int r + 1, 0) else (int r, int c + 1))"

fun walk_items ::
  "(nat \<Rightarrow> nat \<Rightarrow> TextCell) \<Rightarrow> (nat \<Rightarrow> nat \<Rightarrow> TextCell) \<Rightarrow> int \<Rightarrow> u8 \<Rightarrow> int \<times> int
     \<Rightarrow> (nat \<times> nat) list \<Rightarrow> item list" where
  "walk_items cur prv ncols a w [] = []"
| "walk_items cur prv ncols a w ((r, c) # ps) =
     (if cur r c \<noteq> prv r c then
        (if (int r, int c) \<noteq> w then [Move (int r) (int c)] else [])
        @ (if attribute (cur r c) \<noteq> a then [Sgr (attribute (cur r c))] else [])
        @ Glyph (attribute (cur r c)) (character (cur r c))
          # walk_items cur prv ncols (attribute (cur r c)) (next_head ncols r c) ps
      else walk_items cur prv ncols a w ps)"

fun walk_end ::
  "(nat \<Rightarrow> nat \<Rightarrow> TextCell) \<Rightarrow> (nat \<Rightarrow> nat \<Rightarrow> TextCell) \<Rightarrow> int \<Rightarrow> u8 \<Rightarrow> int \<times> int
     \<Rightarrow> (nat \<times> nat) list \<Rightarrow> u8 \<times> int \<times> int" where
  "walk_end cur prv ncols a w [] = (a, w)"
| "walk_end cur prv ncols a w ((r, c) # ps) =
     (if cur r c \<noteq> prv r c then
        walk_end cur prv ncols (attribute (cur r c)) (next_head ncols r c) ps
      else walk_end cur prv ncols a w ps)"

definition diff_items :: "VGATextStream \<Rightarrow> item list" where
  "diff_items s =
     walk_items (current s) (previous s) (cols s) (ansi_attr s) (-1, -1)
       (List.product [0..<nat (rows s)] [0..<nat (cols s)])"

definition cursor_items :: "VGATextStream \<Rightarrow> item list" where
  "cursor_items s =
     (if cursor_ne (cursor s) (prev_cursor s) then
        (if visible (cursor s)
         then [Move (uint (row (cursor s))) (uint (col (cursor s)))] else [])
        @ (if visible (cursor s) \<noteq> visible (prev_cursor s)
           then [CursorVis (visible (cursor s))] else [])
      else [])"

definition pass_items :: "VGATextStream \<Rightarrow> item list" where
  "pass_items s = (if force_redraw s then full_items s else diff_items s) @ cursor_items s"

text \<open>
  Attribute stickiness of an item sequence, checked by one scan. The scan state is: the
  verdict so far, the attribute of the last glyph seen, whether an SGR has been seen
  since that glyph, and whether a newline has. A glyph with the attribute of the glyph
  before it must have no SGR between the two, unless a newline lies between them and the
  attribute is not \<open>0x07\<close>.
\<close>

type_synonym scan_state = "bool \<times> u8 option \<times> bool \<times> bool"

fun scan_step :: "item \<Rightarrow> scan_state \<Rightarrow> scan_state" where
  "scan_step (Sgr a) (ok, seen, sgr, nl) = (ok, seen, True, nl)"
| "scan_step Newline (ok, seen, sgr, nl) = (ok, seen, sgr, True)"
| "scan_step (Glyph a ch) (ok, seen, sgr, nl) =
     (ok \<and> (seen = Some a \<and> sgr \<longrightarrow> nl \<and> a \<noteq> 0x07), Some a, False, False)"
| "scan_step (Move r c) st = st"
| "scan_step ClearScreen st = st"
| "scan_step (CursorVis v) st = st"

definition sticky :: "item list \<Rightarrow> bool" where
  "sticky its = fst (fold scan_step its (True, None, False, False))"

text \<open>
  Two invariants of the scan, used in the proof that every pass is sticky: the first
  holds, for the last emitted attribute \<open>a\<close>, wherever a cell may be emitted next; the
  second at the end of a row of a full redraw.
\<close>

definition cell_inv :: "u8 \<Rightarrow> scan_state \<Rightarrow> bool" where
  "cell_inv a st =
     (case st of (ok, seen, sgr, nl) \<Rightarrow>
        ok \<and> (\<forall>b. seen = Some b \<longrightarrow> sgr \<or> b \<noteq> a \<longrightarrow> nl \<and> b \<noteq> 0x07))"

definition row_inv :: "u8 \<Rightarrow> scan_state \<Rightarrow> bool" where
  "row_inv a st =
     (case st of (ok, seen, sgr, nl) \<Rightarrow>
        ok \<and> (\<forall>b. seen = Some b \<longrightarrow> sgr \<or> b \<noteq> a \<longrightarrow> b \<noteq> 0x07))"

section \<open>Concrete states\<close>

text \<open>
  The object as the constructor and the member initialisers of the header leave it. The
  constructor does not initialise the two cursors; they are zero here.
\<close>

definition initial_stream :: VGATextStream where
  "initial_stream =
     \<lparr>client_fd = -1, tx = [], tx_room = 0, rx = [], kbd = [],
      current = (\<lambda>r c. \<lparr>character = 0, attribute = 0\<rparr>),
      previous = (\<lambda>r c. \<lparr>character = 0, attribute = 0\<rparr>),
      cursor = \<lparr>row = 0, col = 0, visible = False\<rparr>,
      prev_cursor = \<lparr>row = 0, col = 0, visible = False\<rparr>,
      cols = 80, rows = 25, prev_cols = 0, prev_rows = 0,
      ansi_attr = 0xFF, ansi_row = -1, ansi_col = -1,
      text_buffer = [], input_state = NORMAL, csi_params = [],
      last_mode = M_ERROR, mode_notified = False,
      client_wants_text = True, client_wants_graphics = False, client_wants_audio = False,
      enabled = False, force_redraw = True, vsync_count = 0, handshake_done = False\<rparr>"

text \<open>The same object once enabled, with a client accepted on descriptor 5.\<close>

definition connected_stream :: VGATextStream where
  "connected_stream = initial_stream\<lparr>client_fd := 5, tx_room := 65536, enabled := True\<rparr>"

text \<open>The registers of the standard 80 x 25 colour text mode, cursor on at (0,0).\<close>

definition vga_text80 :: vga_type where
  "vga_text80 =
     \<lparr>mode = M_TEXT, crtc_offset = 40, crtc_maximum_scan_line = 0x4F,
      crtc_vertical_display_end = 0x8F, crtc_cursor_location_high = 0,
      crtc_cursor_location_low = 0, crtc_cursor_start = 0x0D, config_display_start = 0\<rparr>"

text \<open>Registers in a transient state: offset and maximum scan line both zero.\<close>

definition vga_zeroed :: vga_type where
  "vga_zeroed =
     \<lparr>mode = M_TEXT, crtc_offset = 0, crtc_maximum_scan_line = 0,
      crtc_vertical_display_end = 0, crtc_cursor_location_high = 0,
      crtc_cursor_location_low = 0, crtc_cursor_start = 0, config_display_start = 0\<rparr>"

text \<open>
  Registers of a dense mode: 160 bytes per row, 8 scan lines per character row, and the
  low eight bits of the vertical display end all set.
\<close>

definition vga_dense :: vga_type where
  "vga_dense =
     \<lparr>mode = M_TEXT, crtc_offset = 80, crtc_maximum_scan_line = 0x47,
      crtc_vertical_display_end = 0xFF, crtc_cursor_location_high = 0,
      crtc_cursor_location_low = 0, crtc_cursor_start = 0x0D, config_display_start = 0\<rparr>"

text \<open>A screen of spaces in light grey on black.\<close>

definition blank_grid :: "nat \<Rightarrow> nat \<Rightarrow> TextCell" where
  "blank_grid = (\<lambda>r c. \<lparr>character = 0x20, attribute = 0x07\<rparr>)"

text \<open>
  The object after the handshake and one frame of the blank 80 x 25 screen with the cursor
  shown at (0,0): nothing has changed since the frame was rendered.
\<close>

definition steady_stream :: VGATextStream where
  "steady_stream =
     connected_stream\<lparr>handshake_done := True, force_redraw := False,
       current := blank_grid, previous := blank_grid,
       cursor := \<lparr>row = 0, col = 0, visible = True\<rparr>,
       prev_cursor := \<lparr>row = 0, col = 0, visible = True\<rparr>,
       prev_cols := 80, prev_rows := 25, last_mode := M_TEXT, mode_notified := True,
       ansi_attr := 0x07, ansi_row := 24, ansi_col := 0\<rparr>"

text \<open>The same with an \<open>A\<close> in white on blue newly written at row 2, column 3.\<close>

definition one_cell_stream :: VGATextStream where
  "one_cell_stream =
     steady_stream\<lparr>current := blank_grid(2 := (blank_grid 2)(3 := \<lparr>character = 0x41, attribute = 0x1F\<rparr>)),
       ansi_attr := 0xFF, ansi_row := -1, ansi_col := -1\<rparr>"

text \<open>The steady object when a full redraw falls due (periodic resync, or REFRESH).\<close>

definition blank_redraw_stream :: VGATextStream where
  "blank_redraw_stream = steady_stream\<lparr>force_redraw := True\<rparr>"

text \<open>
  A 2-column, 24-row screen due for a full redraw: blank except for an \<open>A\<close> at the end of
  row 0 and a \<open>B\<close> at the start of row 1, both white on blue.
\<close>

definition two_row_stream :: VGATextStream where
  "two_row_stream =
     steady_stream\<lparr>force_redraw := True, cols := 2, rows := 24, prev_cols := 2, prev_rows := 24,
       current := blank_grid(0 := (blank_grid 0)(1 := \<lparr>character = 0x41, attribute = 0x1F\<rparr>),
                             1 := (blank_grid 1)(0 := \<lparr>character = 0x42, attribute = 0x1F\<rparr>))\<rparr>"

text \<open>
  A 3-column, 24-row screen due for a full redraw: \<open>A\<close> and \<open>B\<close> in white on blue and
  \<open>C\<close> in light grey on black in row 0, \<open>D\<close> in light grey on black at the start of
  row 1.
\<close>

definition three_col_stream :: VGATextStream where
  "three_col_stream =
     steady_stream\<lparr>force_redraw := True, cols := 3, rows := 24, prev_cols := 3, prev_rows := 24,
       current := blank_grid(0 := (blank_grid 0)(0 := \<lparr>character = 0x41, attribute = 0x1F\<rparr>,
                                                 1 := \<lparr>character = 0x42, attribute = 0x1F\<rparr>,
                                                 2 := \<lparr>character = 0x43, attribute = 0x07\<rparr>),
                             1 := (blank_grid 1)(0 := \<lparr>character = 0x44, attribute = 0x07\<rparr>))\<rparr>"

text \<open>
  A 6-column, 24-row screen in a differential update: \<open>A\<close> and \<open>B\<close> in white on blue
  newly written side by side in row 2.
\<close>

definition two_cell_stream :: VGATextStream where
  "two_cell_stream =
     steady_stream\<lparr>cols := 6, rows := 24, prev_cols := 6, prev_rows := 24,
       current := blank_grid(2 := (blank_grid 2)(3 := \<lparr>character = 0x41, attribute = 0x1F\<rparr>,
                                                 4 := \<lparr>character = 0x42, attribute = 0x1F\<rparr>))\<rparr>"

section \<open>What sending changes\<close>

lemma SendMessage_frame:
  "SendMessage c d s = s\<lparr>tx := tx (SendMessage c d s), tx_room := tx_room (SendMessage c d s)\<rparr>"
  by (auto simp: SendMessage_def sock_write_def Let_def split: prod.splits)

lemma SendMessage_dims [simp]:
  "cols (SendMessage c d s) = cols s" "rows (SendMessage c d s) = rows s"
  by (subst SendMessage_frame, simp)+

lemma SendModeNotification_dims [simp]:
  "cols (SendModeNotification vga s) = cols s" "rows (SendModeNotification vga s) = rows s"
  by (simp_all add: SendModeNotification_def SendControl_def Let_def)

lemma SendMessage_keeps [simp]:
  "client_fd (SendMessage c d s) = client_fd s"
  "rx (SendMessage c d s) = rx s"
  "kbd (SendMessage c d s) = kbd s"
  "current (SendMessage c d s) = current s"
  "previous (SendMessage c d s) = previous s"
  "cursor (SendMessage c d s) = cursor s"
  "prev_cursor (SendMessage c d s) = prev_cursor s"
  "prev_cols (SendMessage c d s) = prev_cols s"
  "prev_rows (SendMessage c d s) = prev_rows s"
  "ansi_attr (SendMessage c d s) = ansi_attr s"
  "ansi_row (SendMessage c d s) = ansi_row s"
  "ansi_col (SendMessage c d s) = ansi_col s"
  "text_buffer (SendMessage c d s) = text_buffer s"
  "input_state (SendMessage c d s) = input_state s"
  "csi_params (SendMessage c d s) = csi_params s"
  "last_mode (SendMessage c d s) = last_mode s"
  "mode_notified (SendMessage c d s) = mode_notified s"
  "client_wants_text (SendMessage c d s) = client_wants_text s"
  "client_wants_graphics (SendMessage c d s) = client_wants_graphics s"
  "client_wants_audio (SendMessage c d s) = client_wants_audio s"
  "enabled (SendMessage c d s) = enabled s"
  "force_redraw (SendMessage c d s) = force_redraw s"
  "vsync_count (SendMessage c d s) = vsync_count s"
  "handshake_done (SendMessage c d s) = handshake_done s"
  by (subst SendMessage_frame, simp)+

lemma SendModeNotification_keeps [simp]:
  "client_fd (SendModeNotification vga s) = client_fd s"
  "rx (SendModeNotification vga s) = rx s"
  "kbd (SendModeNotification vga s) = kbd s"
  "current (SendModeNotification vga s) = current s"
  "previous (SendModeNotification vga s) = previous s"
  "cursor (SendModeNotification vga s) = cursor s"
  "prev_cursor (SendModeNotification vga s) = prev_cursor s"
  "prev_cols (SendModeNotification vga s) = prev_cols s"
  "prev_rows (SendModeNotification vga s) = prev_rows s"
  "ansi_attr (SendModeNotification vga s) = ansi_attr s"
  "ansi_row (SendModeNotification vga s) = ansi_row s"
  "ansi_col (SendModeNotification vga s) = ansi_col s"
  "text_buffer (SendModeNotification vga s) = text_buffer s"
  "input_state (SendModeNotification vga s) = input_state s"
  "csi_params (SendModeNotification vga s) = csi_params s"
  "last_mode (SendModeNotification vga s) = last_mode s"
  "client_wants_text (SendModeNotification vga s) = client_wants_text s"
  "client_wants_graphics (SendModeNotification vga s) = client_wants_graphics s"
  "client_wants_audio (SendModeNotification vga s) = client_wants_audio s"
  "enabled (SendModeNotification vga s) = enabled s"
  "force_redraw (SendModeNotification vga s) = force_redraw s"
  "vsync_count (SendModeNotification vga s) = vsync_count s"
  "handshake_done (SendModeNotification vga s) = handshake_done s"
  by (simp_all add: SendModeNotification_def SendControl_def Let_def)

section \<open>Framing\<close>

lemma be24_round_trip:
  assumes "n \<le> 0xFFFFFF"
  shows "push_bit 16 (unat (of_nat (drop_bit 16 n AND 0xFF) :: u8))
           OR push_bit 8 (unat (of_nat (drop_bit 8 n AND 0xFF) :: u8))
           OR unat (of_nat (n AND 0xFF) :: u8) = n"
proof -
  have m: "(0xFF::nat) = mask 8" by (simp add: mask_eq_exp_minus_1)
  from assms have "n < 2 ^ 24" by simp
  then have n: "take_bit 24 n = n" by (simp add: take_bit_nat_eq_self)
  have parts: "push_bit 16 (take_bit 8 (drop_bit 16 n)) OR push_bit 8 (take_bit 8 (drop_bit 8 n))
          OR take_bit 8 n = take_bit 24 n" (is "?L = ?R")
  proof (rule bit_eqI)
    fix k :: nat
    consider "k < 8" | "8 \<le> k \<and> k < 16" | "16 \<le> k \<and> k < 24" | "24 \<le> k" by linarith
    then show "bit ?L k = bit ?R k"
      by cases (auto simp: bit_simps)
  qed
  have e: "unat (of_nat (drop_bit 16 n AND mask 8) :: u8) = take_bit 8 (drop_bit 16 n)"
      "unat (of_nat (drop_bit 8 n AND mask 8) :: u8) = take_bit 8 (drop_bit 8 n)"
      "unat (of_nat (n AND mask 8) :: u8) = take_bit 8 n"
    by (simp_all add: unsigned_of_nat flip: take_bit_eq_mask)
  show ?thesis
    unfolding m e using parts n by simp
qed

lemma read_payload_all:
  "length got \<le> len \<Longrightarrow> len - length got \<le> length buf \<Longrightarrow>
   read_payload len got buf = Some (got @ take (len - length got) buf, drop (len - length got) buf)"
  by (subst read_payload.simps, subst read_payload.simps) (auto simp: sock_read_def)

text \<open>
  C1. Framing round-trip. When a client is connected and the socket has room for the whole
  frame, the bytes \<open>SendMessage\<close> writes for channel \<open>c\<close> and a payload \<open>p\<close> of at most
  \<open>0xFFFFFF\<close> bytes are the channel byte, the three big-endian length bytes and the
  payload, and \<open>ReadMessage\<close> on a socket holding these bytes (followed by anything)
  returns exactly \<open>(c, p)\<close> and leaves the rest unread. For a payload \<open>q\<close> longer than
  \<open>0xFFFFFF\<close>, \<open>SendMessage\<close> changes nothing: no byte is written.
\<close>

theorem framing_round_trip:
  "(0 \<le> client_fd s \<and> length p \<le> 0xFFFFFF \<and> 4 + length p \<le> tx_room s \<and> 0 \<le> client_fd t \<longrightarrow>
      (let sent = drop (length (tx s)) (tx (SendMessage c p s)) in
         sent = frame_header c (length p) @ p
         \<and> ReadMessage (t\<lparr>rx := sent @ rest\<rparr>) = (Some (c, p), t\<lparr>rx := rest\<rparr>)))
   \<and> (length q > 0xFFFFFF \<longrightarrow> SendMessage c q s = s)"
proof (intro conjI impI)
  assume "length q > 0xFFFFFF"
  then show "SendMessage c q s = s" by (simp add: SendMessage_def)
next
  assume a: "0 \<le> client_fd s \<and> length p \<le> 0xFFFFFF \<and> 4 + length p \<le> tx_room s
               \<and> 0 \<le> client_fd t"
  have sent: "drop (length (tx s)) (tx (SendMessage c p s)) = frame_header c (length p) @ p"
    using a by (auto simp: SendMessage_def sock_write_def frame_header_def Let_def)
  have rd: "ReadMessage (t\<lparr>rx := (frame_header c (length p) @ p) @ rest\<rparr>)
              = (Some (c, p), t\<lparr>rx := rest\<rparr>)"
    using a be24_round_trip[of "length p"]
    by (simp add: ReadMessage_def sock_read_def frame_header_def read_payload_all)
  show "let sent = drop (length (tx s)) (tx (SendMessage c p s)) in
         sent = frame_header c (length p) @ p
         \<and> ReadMessage (t\<lparr>rx := sent @ rest\<rparr>) = (Some (c, p), t\<lparr>rx := rest\<rparr>)"
    unfolding Let_def sent using rd by blast
qed

theorem framing_round_trip_witness:
  "(0 \<le> client_fd connected_stream \<and> length [0x41, 0x42 :: u8] \<le> 0xFFFFFF
    \<and> 4 + length [0x41, 0x42 :: u8] \<le> tx_room connected_stream)
   \<and> (let sent = drop (length (tx connected_stream))
                    (tx (SendMessage TEXT_OUT [0x41, 0x42] connected_stream)) in
        sent = frame_header TEXT_OUT (length [0x41, 0x42 :: u8]) @ [0x41, 0x42]
        \<and> ReadMessage (connected_stream\<lparr>rx := sent @ [0x99]\<rparr>)
            = (Some (TEXT_OUT, [0x41, 0x42]), connected_stream\<lparr>rx := [0x99]\<rparr>))
   \<and> length (replicate 16777216 (0 :: u8)) > 0xFFFFFF
   \<and> SendMessage TEXT_OUT (replicate 16777216 0) connected_stream = connected_stream"
proof -
  have h: "0 \<le> client_fd connected_stream \<and> length [0x41, 0x42 :: u8] \<le> 0xFFFFFF
           \<and> 4 + length [0x41, 0x42 :: u8] \<le> tx_room connected_stream"
    by (simp add: connected_stream_def initial_stream_def)
  have l: "length (replicate 16777216 (0 :: u8)) > 0xFFFFFF"
    by simp
  show ?thesis
    using h l framing_round_trip [where s = connected_stream and t = connected_stream
      and p = "[0x41, 0x42]" and c = TEXT_OUT and rest = "[0x99]"
      and q = "replicate 16777216 0"]
    by blast
qed

section \<open>Handshake gating\<close>

text \<open>
  C2. Handshake gating. In every state in which \<open>handshake_done\<close> is false, \<open>OnVSync\<close>
  returns the object as it was (so it writes nothing to the client: no TEXT_OUT frame, no
  mode notification), and \<open>SendModeNotification\<close> returns the object as it was (no
  MODE_TEXT or MODE_UNSUPPORTED frame).
\<close>

theorem handshake_gating:
  "\<not> handshake_done s \<Longrightarrow>
     OnVSync vga mem_readb s = s \<and> tx (OnVSync vga mem_readb s) = tx s
     \<and> SendModeNotification vga s = s \<and> tx (SendModeNotification vga s) = tx s"
  by (simp add: OnVSync_def SendModeNotification_def)

theorem handshake_gating_witness:
  "\<not> handshake_done connected_stream
   \<and> OnVSync vga_text80 (\<lambda>a. 0x20) connected_stream = connected_stream
   \<and> tx (OnVSync vga_text80 (\<lambda>a. 0x20) connected_stream) = tx connected_stream
   \<and> SendModeNotification vga_text80 connected_stream = connected_stream
   \<and> tx (SendModeNotification vga_text80 connected_stream) = tx connected_stream"
  using handshake_gating [of connected_stream vga_text80 "\<lambda>a. 0x20"]
  by (simp add: connected_stream_def initial_stream_def)

text \<open>
  The reader thread's side of the same gate: a message processed while the handshake is
  not done writes nothing to the client, unless it is the CONTROL/HELLO that completes
  the handshake.
\<close>

lemma InjectKey_tx [simp]: "tx (InjectKey sc a e s) = tx s"
  "handshake_done (InjectKey sc a e s) = handshake_done s"
  by (simp_all add: InjectKey_def BIOS_AddKeyToBuffer_def Let_def)

lemma csi_tilde_tx [simp]: "tx (csi_tilde p s) = tx s"
  "handshake_done (csi_tilde p s) = handshake_done s"
  by (simp_all add: csi_tilde_def)

lemma csi_final_tx [simp]: "tx (csi_final b s) = tx s"
  "handshake_done (csi_final b s) = handshake_done s"
  by (simp_all add: csi_final_def)

lemma ss3_final_tx [simp]: "tx (ss3_final b s) = tx s"
  "handshake_done (ss3_final b s) = handshake_done s"
  by (simp_all add: ss3_final_def)

lemma ProcessInputByte_tx [simp]: "tx (ProcessInputByte b s) = tx s"
  "handshake_done (ProcessInputByte b s) = handshake_done s"
  by (simp_all add: ProcessInputByte_def BIOS_AddKeyToBuffer_def Let_def split: InputState.splits)

lemma HandleKeyboardInput_tx: "tx (HandleKeyboardInput data s) = tx s"
  unfolding HandleKeyboardInput_def by (induction data arbitrary: s) simp_all

lemma HandleHello_gate:
  "tx (HandleHello vga p s) = tx s \<or> handshake_done (HandleHello vga p s)"
  by (simp add: HandleHello_def Let_def)

lemma messages_before_hello:
  "\<not> handshake_done s \<Longrightarrow>
   tx (ProcessMessage vga channel payload s) = tx s
   \<or> (channel = CONTROL \<and> 4 \<le> length payload \<and> payload ! 0 = HELLO
       \<and> handshake_done (ProcessMessage vga channel payload s))"
  using HandleHello_gate[of vga "drop 1 payload" s]
  by (auto simp: ProcessMessage_def HandleControlInput_def HandleKeyboardInput_tx
      HandleMouseInput_def Invalidate_def Let_def HandleHello_def)

section \<open>HELLO capability parsing\<close>

lemma caps_step:
  assumes "i < n" "3 + i < length payload"
  shows "take (n - i) (drop (3 + i) payload)
     = payload ! (3 + i) # take (n - (i + 1)) (drop (3 + (i + 1)) payload)"
proof -
  have "drop (3 + i) payload = payload ! (3 + i) # drop (Suc (3 + i)) payload"
    using assms(2) by (rule Cons_nth_drop_Suc[symmetric])
  moreover from assms have "n - i = Suc (n - (i + 1))" by simp
  ultimately show ?thesis by simp
qed

lemma caps_done:
  "\<not> (i < n \<and> 3 + i < length payload) \<Longrightarrow> take (n - i) (drop (3 + i) payload) = []"
  by auto

lemma hello_cap_fields:
  "client_wants_text (hello_cap c s) \<longleftrightarrow> client_wants_text s \<or> TEXT_OUTPUT = c"
  "client_wants_graphics (hello_cap c s) \<longleftrightarrow>
     client_wants_graphics s \<or> GRAPHICS_PNG = c \<or> GRAPHICS_JPEG = c \<or> GRAPHICS_H264 = c"
  "client_wants_audio (hello_cap c s) \<longleftrightarrow> client_wants_audio s \<or> AUDIO_PCM = c \<or> AUDIO_OPUS = c"
  "client_fd (hello_cap c s) = client_fd s"
  by (auto simp: hello_cap_def TEXT_OUTPUT_def GRAPHICS_PNG_def GRAPHICS_JPEG_def
      GRAPHICS_H264_def AUDIO_PCM_def AUDIO_OPUS_def)

lemma hello_caps_fields:
  "(client_wants_text (hello_caps payload n i s) \<longleftrightarrow>
      client_wants_text s \<or> TEXT_OUTPUT \<in> set (take (n - i) (drop (3 + i) payload)))
   \<and> (client_wants_graphics (hello_caps payload n i s) \<longleftrightarrow>
      client_wants_graphics s \<or> GRAPHICS_PNG \<in> set (take (n - i) (drop (3 + i) payload))
         \<or> GRAPHICS_JPEG \<in> set (take (n - i) (drop (3 + i) payload))
         \<or> GRAPHICS_H264 \<in> set (take (n - i) (drop (3 + i) payload)))
   \<and> (client_wants_audio (hello_caps payload n i s) \<longleftrightarrow>
      client_wants_audio s \<or> AUDIO_PCM \<in> set (take (n - i) (drop (3 + i) payload))
         \<or> AUDIO_OPUS \<in> set (take (n - i) (drop (3 + i) payload)))
   \<and> client_fd (hello_caps payload n i s) = client_fd s"
proof (induction payload n i s rule: hello_caps.induct)
  case (1 payload cap_count i s)
  show ?case
  proof (cases "i < cap_count \<and> 3 + i < length payload")
    case True
    have u: "hello_caps payload cap_count i s
          = hello_caps payload cap_count (i + 1) (hello_cap (payload ! (3 + i)) s)"
      using True by (subst hello_caps.simps) simp
    have st: "take (cap_count - i) (drop (3 + i) payload)
        = payload ! (3 + i) # take (cap_count - (i + 1)) (drop (3 + (i + 1)) payload)"
      using True by (simp add: caps_step)
    note ih = "1.IH"[OF True, unfolded hello_cap_fields]
    note ih1 = ih[THEN conjunct1]
    note ih2 = ih[THEN conjunct2, THEN conjunct1]
    note ih3 = ih[THEN conjunct2, THEN conjunct2, THEN conjunct1]
    note ih4 = ih[THEN conjunct2, THEN conjunct2, THEN conjunct2]
    show ?thesis
      unfolding u st set_simps insert_iff ih1 ih2 ih3 ih4
      by blast
  next
    case False
    then have u: "hello_caps payload cap_count i s = s"
      by (subst hello_caps.simps) auto
    from False have e: "take (cap_count - i) (drop (3 + i) payload) = []"
      by (rule caps_done)
    show ?thesis unfolding u e by simp
  qed
qed

text \<open>
  C5. HELLO capability parsing. For a payload of at least 3 bytes, let \<open>caps\<close> be the
  capability bytes actually present: the first \<open>N\<close> bytes after the three-byte prefix,
  or fewer when the payload ends first (\<open>N\<close> is the byte at index 2). After
  \<open>HandleHello\<close>, \<open>client_wants_text\<close> holds iff \<open>0x01\<close> is among them,
  \<open>client_wants_graphics\<close> iff \<open>0x10\<close>, \<open>0x11\<close> or \<open>0x12\<close> is, \<open>client_wants_audio\<close>
  iff \<open>0x20\<close> or \<open>0x21\<close> is; whatever other ids the list holds, the handshake completes
  and the client stays connected. For a payload \<open>short\<close> of fewer than 3 bytes,
  \<open>HandleHello\<close> returns the object unchanged.
\<close>

theorem hello_capabilities:
  "(3 \<le> length payload \<longrightarrow>
      (let s' = HandleHello vga payload s;
           caps = take (unat (payload ! 2)) (drop 3 payload) in
         (client_wants_text s' \<longleftrightarrow> 0x01 \<in> set caps)
       \<and> (client_wants_graphics s' \<longleftrightarrow> 0x10 \<in> set caps \<or> 0x11 \<in> set caps \<or> 0x12 \<in> set caps)
       \<and> (client_wants_audio s' \<longleftrightarrow> 0x20 \<in> set caps \<or> 0x21 \<in> set caps)
       \<and> handshake_done s' \<and> client_fd s' = client_fd s))
   \<and> (length short < 3 \<longrightarrow> HandleHello vga short s = s)"
proof (intro conjI impI)
  assume "length short < 3"
  then show "HandleHello vga short s = s" by (simp add: HandleHello_def)
next
  assume len: "3 \<le> length payload"
  let ?s1 = "s\<lparr>client_wants_text := False, client_wants_graphics := False,
                     client_wants_audio := False\<rparr>"
  let ?s2 = "hello_caps payload (unat (payload ! 2)) 0 ?s1"
  have h: "HandleHello vga payload s = SendModeNotification vga (?s2\<lparr>handshake_done := True\<rparr>)"
    using len by (simp add: HandleHello_def Let_def)
  note f = hello_caps_fields[of payload "unat (payload ! 2)" 0 ?s1]
  have f1: "client_wants_text ?s2 \<longleftrightarrow> 0x01 \<in> set (take (unat (payload ! 2)) (drop 3 payload))"
    using f[THEN conjunct1] by (simp add: TEXT_OUTPUT_def)
  have f2: "client_wants_graphics ?s2 \<longleftrightarrow> 0x10 \<in> set (take (unat (payload ! 2)) (drop 3 payload))
      \<or> 0x11 \<in> set (take (unat (payload ! 2)) (drop 3 payload))
      \<or> 0x12 \<in> set (take (unat (payload ! 2)) (drop 3 payload))"
    using f[THEN conjunct2, THEN conjunct1]
    by (simp add: GRAPHICS_PNG_def GRAPHICS_JPEG_def GRAPHICS_H264_def)
  have f3: "client_wants_audio ?s2 \<longleftrightarrow> 0x20 \<in> set (take (unat (payload ! 2)) (drop 3 payload))
      \<or> 0x21 \<in> set (take (unat (payload ! 2)) (drop 3 payload))"
    using f[THEN conjunct2, THEN conjunct2, THEN conjunct1]
    by (simp add: AUDIO_PCM_def AUDIO_OPUS_def)
  have f4: "client_fd ?s2 = client_fd s"
    using f[THEN conjunct2, THEN conjunct2, THEN conjunct2] by simp
  show "let s' = HandleHello vga payload s;
           caps = take (unat (payload ! 2)) (drop 3 payload) in
         (client_wants_text s' \<longleftrightarrow> 0x01 \<in> set caps)
       \<and> (client_wants_graphics s' \<longleftrightarrow> 0x10 \<in> set caps \<or> 0x11 \<in> set caps \<or> 0x12 \<in> set caps)
       \<and> (client_wants_audio s' \<longleftrightarrow> 0x20 \<in> set caps \<or> 0x21 \<in> set caps)
       \<and> handshake_done s' \<and> client_fd s' = client_fd s"
    unfolding Let_def h by (simp add: f1 f2 f3 f4)
qed

theorem hello_capabilities_witness:
  "3 \<le> length [0x00, 0x01, 0x05, 0x01, 0x7F, 0x21 :: u8]
   \<and> client_wants_text (HandleHello vga_text80 [0x00, 0x01, 0x05, 0x01, 0x7F, 0x21] connected_stream)
   \<and> \<not> client_wants_graphics
         (HandleHello vga_text80 [0x00, 0x01, 0x05, 0x01, 0x7F, 0x21] connected_stream)
   \<and> client_wants_audio (HandleHello vga_text80 [0x00, 0x01, 0x05, 0x01, 0x7F, 0x21] connected_stream)
   \<and> handshake_done (HandleHello vga_text80 [0x00, 0x01, 0x05, 0x01, 0x7F, 0x21] connected_stream)
   \<and> client_fd (HandleHello vga_text80 [0x00, 0x01, 0x05, 0x01, 0x7F, 0x21] connected_stream) = 5
   \<and> length [0x00, 0x01 :: u8] < 3
   \<and> HandleHello vga_text80 [0x00, 0x01] connected_stream = connected_stream"
  using hello_capabilities [of "[0x00, 0x01, 0x05, 0x01, 0x7F, 0x21]" vga_text80 connected_stream
      "[0x00, 0x01]"]
  by (simp add: Let_def connected_stream_def initial_stream_def)

section \<open>Snapshot dimensions\<close>

lemma snapshot_cell_dims [simp]:
  "cols (snapshot_cell m b r c s) = cols s" "rows (snapshot_cell m b r c s) = rows s"
  by (simp_all add: snapshot_cell_def Let_def)

lemma fold_snapshot_cell_dims [simp]:
  "cols (fold (snapshot_cell m b r) cs s) = cols s"
  "rows (fold (snapshot_cell m b r) cs s) = rows s"
  by (induction cs arbitrary: s) simp_all

lemma fold_snapshot_rows_dims [simp]:
  "cols (fold (\<lambda>r t. fold (snapshot_cell m b r) [0..<nat (cols t)] t) rs s) = cols s"
  "rows (fold (\<lambda>r t. fold (snapshot_cell m b r) [0..<nat (cols t)] t) rs s) = rows s"
  by (induction rs arbitrary: s) simp_all

lemma Snapshot_dims:
  "cols (SnapshotTextBuffer vga m s) = snapshot_cols vga"
  "rows (SnapshotTextBuffer vga m s) = snapshot_rows vga"
  by (simp_all add: SnapshotTextBuffer_def Let_def)

lemma snapshot_cols_bounds:
  "1 \<le> snapshot_cols vga" "snapshot_cols vga \<le> 132"
  "crtc_offset vga = 0 \<Longrightarrow> snapshot_cols vga = 80"
proof -
  have "0 < uint (crtc_offset vga)" if "0 < crtc_offset vga"
    using that by (simp add: word_less_def)
  then show "1 \<le> snapshot_cols vga"
    by (auto simp: snapshot_cols_def Let_def TEXTSTREAM_MAX_COLS_def)
  show "snapshot_cols vga \<le> 132"
    by (simp add: snapshot_cols_def Let_def TEXTSTREAM_MAX_COLS_def)
  show "crtc_offset vga = 0 \<Longrightarrow> snapshot_cols vga = 80"
    by (simp add: snapshot_cols_def Let_def TEXTSTREAM_MAX_COLS_def)
qed

lemma snapshot_rows_bounds:
  "24 \<le> snapshot_rows vga" "snapshot_rows vga \<le> 60"
  "crtc_maximum_scan_line vga AND 0x1F = 0 \<Longrightarrow> snapshot_rows vga = 25"
  by (simp_all add: snapshot_rows_def Let_def TEXTSTREAM_MAX_ROWS_def)

lemma snapshot_cols_value:
  "crtc_offset vga \<noteq> 0 \<Longrightarrow> snapshot_cols vga = min 132 (2 * int (unat (crtc_offset vga)))"
proof -
  assume "crtc_offset vga \<noteq> 0"
  then have "0 < crtc_offset vga" by (simp add: word_greater_zero_iff)
  then show ?thesis
    by (simp add: snapshot_cols_def Let_def TEXTSTREAM_MAX_COLS_def min_def)
qed

lemma snapshot_rows_value:
  "unat (crtc_maximum_scan_line vga AND 0x1F) \<noteq> 0 \<Longrightarrow>
   snapshot_rows vga =
     (let raw = (unat (crtc_vertical_display_end vga) + 1)
                  div (unat (crtc_maximum_scan_line vga AND 0x1F) + 1)
      in if raw < 24 then 25 else min 60 (int raw))"
  by (simp add: snapshot_rows_def Let_def TEXTSTREAM_MAX_ROWS_def min_def)

text \<open>
  C6. Dimension clamp. After \<open>SnapshotTextBuffer\<close>, whatever the registers, the text
  plane and the object before: \<open>1 \<le> cols \<le> 132\<close> and \<open>24 \<le> rows \<le> 60\<close>. \<open>cols\<close> is 80
  when the offset register is zero, and otherwise twice the register, at most 132.
  With \<open>msl\<close> the maximum-scan-line field (the low five bits of the register), \<open>rows\<close>
  is 25 when \<open>msl\<close> is zero; otherwise, with \<open>raw\<close> the quotient of the vertical display
  end plus one by \<open>msl\<close> plus one, \<open>rows\<close> is 25 when \<open>raw\<close> is below 24, and \<open>raw\<close>,
  at most 60, when it is not.
\<close>

theorem dimension_clamp:
  "(let s' = SnapshotTextBuffer vga mem_readb s;
        msl = unat (crtc_maximum_scan_line vga AND 0x1F);
        raw = (unat (crtc_vertical_display_end vga) + 1) div (msl + 1) in
      1 \<le> cols s' \<and> cols s' \<le> 132 \<and> 24 \<le> rows s' \<and> rows s' \<le> 60
      \<and> (crtc_offset vga = 0 \<longrightarrow> cols s' = 80)
      \<and> (crtc_maximum_scan_line vga AND 0x1F = 0 \<longrightarrow> rows s' = 25)
      \<and> (crtc_offset vga \<noteq> 0 \<longrightarrow> cols s' = min 132 (2 * int (unat (crtc_offset vga))))
      \<and> (msl \<noteq> 0 \<and> raw < 24 \<longrightarrow> rows s' = 25)
      \<and> (msl \<noteq> 0 \<and> 24 \<le> raw \<longrightarrow> rows s' = min 60 (int raw)))"
  unfolding Let_def Snapshot_dims
  using snapshot_cols_bounds[of vga] snapshot_rows_bounds[of vga]
    snapshot_cols_value[of vga] snapshot_rows_value[of vga]
  by (auto simp: Let_def)

theorem dimension_clamp_witness:
  "crtc_offset vga_zeroed = 0 \<and> crtc_maximum_scan_line vga_zeroed AND 0x1F = 0
   \<and> cols (SnapshotTextBuffer vga_zeroed (\<lambda>a. 0x20) connected_stream) = 80
   \<and> rows (SnapshotTextBuffer vga_zeroed (\<lambda>a. 0x20) connected_stream) = 25
   \<and> crtc_offset vga_text80 = 40
   \<and> unat (crtc_maximum_scan_line vga_text80 AND 0x1F) = 15
   \<and> (unat (crtc_vertical_display_end vga_text80) + 1) div (15 + 1) = 9
   \<and> cols (SnapshotTextBuffer vga_text80 (\<lambda>a. 0x20) connected_stream) = 80
   \<and> rows (SnapshotTextBuffer vga_text80 (\<lambda>a. 0x20) connected_stream) = 25
   \<and> crtc_offset vga_dense = 80
   \<and> unat (crtc_maximum_scan_line vga_dense AND 0x1F) = 7
   \<and> (unat (crtc_vertical_display_end vga_dense) + 1) div (7 + 1) = 32
   \<and> cols (SnapshotTextBuffer vga_dense (\<lambda>a. 0x20) connected_stream) = 132
   \<and> rows (SnapshotTextBuffer vga_dense (\<lambda>a. 0x20) connected_stream) = 32"
  using dimension_clamp [of vga_zeroed "\<lambda>a. 0x20" connected_stream]
    dimension_clamp [of vga_text80 "\<lambda>a. 0x20" connected_stream]
    dimension_clamp [of vga_dense "\<lambda>a. 0x20" connected_stream]
  by (simp add: vga_zeroed_def vga_text80_def vga_dense_def Let_def)

section \<open>Differential rendering\<close>

lemma diff_cell_same:
  "current s r c = previous s r c \<Longrightarrow> diff_cell r c (s, wr, wc) = (s, wr, wc)"
  by (simp add: diff_cell_def)

lemma fold_diff_cell_same:
  "(\<forall>c \<in> set cs. current s r c = previous s r c) \<Longrightarrow>
   fold (diff_cell r) cs (s, wr, wc) = (s, wr, wc)"
  by (induction cs) (simp_all add: diff_cell_same)

lemma diff_row_same:
  "(\<forall>c. int c < cols s \<longrightarrow> current s r c = previous s r c) \<Longrightarrow>
   diff_row r (s, wr, wc) = (s, wr, wc)"
  unfolding diff_row_def by (simp add: fold_diff_cell_same)

lemma fold_diff_row_same:
  "(\<forall>r \<in> set rs. \<forall>c. int c < cols s \<longrightarrow> current s r c = previous s r c) \<Longrightarrow>
   fold diff_row rs (s, wr, wc) = (s, wr, wc)"
  by (induction rs) (simp_all add: diff_row_same)

text \<open>
  C3. Diff idempotence. When \<open>force_redraw\<close> is false, every cell of \<open>current\<close> within
  the \<open>rows\<close> x \<open>cols\<close> extent equals the cell of \<open>previous\<close>, and the cursor equals the
  previous cursor, \<open>GenerateTextOutput\<close> leaves \<open>text_buffer\<close> empty and writes nothing to
  the client: no TEXT_OUT frame is sent.
\<close>

theorem diff_idempotence:
  assumes "\<not> force_redraw s"
    and "\<forall>r c. int r < rows s \<longrightarrow> int c < cols s \<longrightarrow> current s r c = previous s r c"
    and "cursor s = prev_cursor s"
  shows "text_buffer (GenerateTextOutput s) = [] \<and> tx (GenerateTextOutput s) = tx s"
proof -
  let ?s1 = "s\<lparr>text_buffer := [], force_redraw := False\<rparr>"
  have "fold diff_row [0..<nat (rows ?s1)] (?s1, -1, -1) = (?s1, -1, -1)"
    by (rule fold_diff_row_same) (use assms(2) in simp)
  then show ?thesis
    using assms(1,3)
    by (simp add: GenerateTextOutput_def Let_def cursor_ne_def FlushTextOutput_def)
qed

theorem diff_idempotence_witness:
  "\<not> force_redraw steady_stream
   \<and> current steady_stream = previous steady_stream
   \<and> cursor steady_stream = prev_cursor steady_stream
   \<and> text_buffer (GenerateTextOutput steady_stream) = []
   \<and> tx (GenerateTextOutput steady_stream) = tx steady_stream"
  using diff_idempotence [of steady_stream]
  by (simp add: steady_stream_def connected_stream_def initial_stream_def)

section \<open>Rendered bytes\<close>

lemma printf_d_small:
  "printf_d 3 = [0x33]" "printf_d 4 = [0x34]" "printf_d 1 = [0x31]"
  "printf_d 37 = [0x33, 0x37]" "printf_d 40 = [0x34, 0x30]"
  "printf_d 97 = [0x39, 0x37]" "printf_d 44 = [0x34, 0x34]"
  by (simp_all add: printf_d_def dec_digits.simps)

lemma sgr_bytes_07: "sgr_bytes 0x07 = [0x1B, 0x5B, 0x30, 0x3B, 0x33, 0x37, 0x3B, 0x34, 0x30, 0x6D]"
  by (simp add: sgr_bytes_def vga_fg_def vga_bg_def printf_d_small)

lemma sgr_bytes_1F: "sgr_bytes 0x1F = [0x1B, 0x5B, 0x30, 0x3B, 0x39, 0x37, 0x3B, 0x34, 0x34, 0x6D]"
  by (simp add: sgr_bytes_def vga_fg_def vga_bg_def printf_d_small)

lemma utf8_bytes_ascii:
  "utf8_bytes 0x20 = [0x20]" "utf8_bytes 0x41 = [0x41]" "utf8_bytes 0x42 = [0x42]"
  by (simp_all add: utf8_bytes_def cp437_to_unicode_def)

lemma move_bytes_2_3: "move_bytes 2 3 = [0x1B, 0x5B, 0x33, 0x3B, 0x34, 0x48]"
  by (simp add: move_bytes_def printf_d_small)

lemma move_bytes_0_0: "move_bytes 0 0 = [0x1B, 0x5B, 0x31, 0x3B, 0x31, 0x48]"
  by (simp add: move_bytes_def printf_d_small)


lemma upt_split:
  assumes "a < n"
  shows "[0..<n] = [0..<a] @ a # [Suc a..<n]"
proof -
  have "[0..<a + (n - a)] = [0..<a] @ [a..<a + (n - a)]"
    by (rule upt_add_eq_append) simp
  moreover have "a + (n - a) = n" using assms by simp
  moreover have "[a..<n] = a # [Suc a..<n]" using assms by (rule upt_conv_Cons)
  ultimately show ?thesis by simp
qed

lemma SendMessage_tx:
  "0 \<le> client_fd s \<Longrightarrow> length d = n \<Longrightarrow> n \<le> 0xFFFFFF \<Longrightarrow> 4 + n \<le> tx_room s \<Longrightarrow>
   tx (SendMessage c d s) = tx s @ frame_header c n @ d"
  by (auto simp: SendMessage_def sock_write_def frame_header_def Let_def)

lemma frame_header_17: "frame_header TEXT_OUT 17 = [0x01, 0x00, 0x00, 0x11]"
  by (simp add: frame_header_def TEXT_OUT_def)

text \<open>
  C7. Single-cell differential update. With \<open>force_redraw\<close> false, the cursor unchanged,
  \<open>ansi_attr\<close> the sentinel \<open>0xFF\<close>, and \<open>current\<close> differing from \<open>previous\<close> within the
  extent only at row 2, column 3 (a cell of the screen: \<open>2 < rows\<close>, \<open>3 < cols\<close>), where
  \<open>previous\<close> holds \<open>(0x20, 0x07)\<close> and \<open>current\<close> holds \<open>(0x41, 0x1F)\<close>, the rendered
  buffer is exactly \<open>1B 5B 33 3B 34 48\<close>, \<open>1B 5B 30 3B 39 37 3B 34 34 6D\<close>, \<open>41\<close>; and
  when a client is connected and the socket has room, what is written is one TEXT_OUT
  frame with this payload.
\<close>

theorem single_cell_diff:
  assumes nf: "\<not> force_redraw s" and cur: "cursor s = prev_cursor s"
    and attr: "ansi_attr s = 0xFF"
    and rs: "2 < rows s" and cs: "3 < cols s"
    and prev: "previous s 2 3 = \<lparr>character = 0x20, attribute = 0x07\<rparr>"
    and curr: "current s 2 3 = \<lparr>character = 0x41, attribute = 0x1F\<rparr>"
    and same: "\<forall>r c. int r < rows s \<longrightarrow> int c < cols s \<longrightarrow> (r, c) \<noteq> (2, 3) \<longrightarrow>
                 current s r c = previous s r c"
  shows "text_buffer (GenerateTextOutput s)
           = [0x1B, 0x5B, 0x33, 0x3B, 0x34, 0x48,
              0x1B, 0x5B, 0x30, 0x3B, 0x39, 0x37, 0x3B, 0x34, 0x34, 0x6D, 0x41]
       \<and> (0 \<le> client_fd s \<and> 21 \<le> tx_room s \<longrightarrow>
            tx (GenerateTextOutput s)
              = tx s @ [0x01, 0x00, 0x00, 0x11] @
                [0x1B, 0x5B, 0x33, 0x3B, 0x34, 0x48,
                 0x1B, 0x5B, 0x30, 0x3B, 0x39, 0x37, 0x3B, 0x34, 0x34, 0x6D, 0x41])"
proof -
  let ?s1 = "s\<lparr>text_buffer := [], force_redraw := False\<rparr>"
  let ?s' = "EmitCharacter 0x41 (EmitSetAttribute 0x1F (EmitMoveCursor 2 3 ?s1))"
  let ?w = "if 4 \<ge> cols s then (3::int, 0::int) else (2, 4)"
  let ?out = "[0x1B, 0x5B, 0x33, 0x3B, 0x34, 0x48,
              0x1B, 0x5B, 0x30, 0x3B, 0x39, 0x37, 0x3B, 0x34, 0x34, 0x6D, 0x41] :: u8 list"
  have keep: "current ?s' = current s" "previous ?s' = previous s" "cols ?s' = cols s"
    "rows ?s' = rows s" "cursor ?s' = cursor s" "prev_cursor ?s' = prev_cursor s"
    "client_fd ?s' = client_fd s" "tx ?s' = tx s" "tx_room ?s' = tx_room s"
    by (simp_all add: EmitCharacter_def EmitSetAttribute_def EmitMoveCursor_def Let_def)
  have buf: "text_buffer ?s' = ?out"
    by (simp add: EmitCharacter_def EmitSetAttribute_def EmitMoveCursor_def Let_def
        move_bytes_2_3 sgr_bytes_1F utf8_bytes_ascii)
  have A: "fold diff_row [0..<2] (?s1, -1, -1) = (?s1, -1, -1)"
    by (rule fold_diff_row_same) (use same rs in auto)
  have n3: "3 < nat (cols s)" using cs by simp
  have B1: "fold (diff_cell 2) [0..<3] (?s1, -1, -1) = (?s1, -1, -1)"
    by (rule fold_diff_cell_same) (use same rs cs in auto)
  have B2: "diff_cell 2 3 (?s1, -1, -1) = (?s', ?w)"
    using prev curr attr by (simp add: diff_cell_def Let_def EmitCharacter_def
        EmitSetAttribute_def EmitMoveCursor_def)
  have B3: "fold (diff_cell 2) [4..<nat (cols s)] (?s', w1, w2) = (?s', w1, w2)" for w1 w2
    by (rule fold_diff_cell_same) (use same rs in \<open>auto simp: keep\<close>)
  have B: "diff_row 2 (?s1, -1, -1) = (?s', ?w)"
    unfolding diff_row_def using upt_split[OF n3] B1 B2 B3
    by (simp add: numeral_eq_Suc)
  have n2: "2 < nat (rows s)" using rs by simp
  have C: "fold diff_row [3..<nat (rows s)] (?s', w1, w2) = (?s', w1, w2)" for w1 w2
    by (rule fold_diff_row_same) (use same in \<open>auto simp: keep\<close>)
  have D: "fold diff_row [0..<nat (rows ?s1)] (?s1, -1, -1) = (?s', ?w)"
    using upt_split[OF n2] A B C by (simp add: numeral_eq_Suc)
  have G: "GenerateTextOutput s
             = (SendMessage TEXT_OUT ?out ?s')\<lparr>previous := current s, prev_cursor := cursor s\<rparr>"
    using nf cur D buf
    by (simp add: GenerateTextOutput_def Let_def cursor_ne_def FlushTextOutput_def keep)
  have T: "tx (SendMessage TEXT_OUT ?out ?s') = tx ?s' @ frame_header TEXT_OUT 17 @ ?out"
    if "0 \<le> client_fd s \<and> 21 \<le> tx_room s"
    by (rule SendMessage_tx) (use that in \<open>simp_all add: keep\<close>)
  show ?thesis
    unfolding G using T buf by (simp add: frame_header_17 keep)
qed

theorem single_cell_diff_witness:
  "\<not> force_redraw one_cell_stream \<and> cursor one_cell_stream = prev_cursor one_cell_stream
   \<and> ansi_attr one_cell_stream = 0xFF \<and> 2 < rows one_cell_stream \<and> 3 < cols one_cell_stream
   \<and> previous one_cell_stream 2 3 = \<lparr>character = 0x20, attribute = 0x07\<rparr>
   \<and> current one_cell_stream 2 3 = \<lparr>character = 0x41, attribute = 0x1F\<rparr>
   \<and> text_buffer (GenerateTextOutput one_cell_stream)
        = [0x1B, 0x5B, 0x33, 0x3B, 0x34, 0x48,
           0x1B, 0x5B, 0x30, 0x3B, 0x39, 0x37, 0x3B, 0x34, 0x34, 0x6D, 0x41]
   \<and> tx (GenerateTextOutput one_cell_stream)
        = [0x01, 0x00, 0x00, 0x11,
           0x1B, 0x5B, 0x33, 0x3B, 0x34, 0x48,
           0x1B, 0x5B, 0x30, 0x3B, 0x39, 0x37, 0x3B, 0x34, 0x34, 0x6D, 0x41]"
proof -
  have h: "\<not> force_redraw one_cell_stream" "cursor one_cell_stream = prev_cursor one_cell_stream"
    "ansi_attr one_cell_stream = 0xFF" "2 < rows one_cell_stream" "3 < cols one_cell_stream"
    "previous one_cell_stream 2 3 = \<lparr>character = 0x20, attribute = 0x07\<rparr>"
    "current one_cell_stream 2 3 = \<lparr>character = 0x41, attribute = 0x1F\<rparr>"
    "\<forall>r c. int r < rows one_cell_stream \<longrightarrow> int c < cols one_cell_stream \<longrightarrow> (r, c) \<noteq> (2, 3) \<longrightarrow>
        current one_cell_stream r c = previous one_cell_stream r c"
    by (simp_all add: one_cell_stream_def steady_stream_def connected_stream_def
        initial_stream_def blank_grid_def)
  have c: "0 \<le> client_fd one_cell_stream \<and> 21 \<le> tx_room one_cell_stream"
    "tx one_cell_stream = []"
    by (simp_all add: one_cell_stream_def steady_stream_def connected_stream_def
        initial_stream_def)
  show ?thesis
    using single_cell_diff [OF h] h c by simp
qed

section \<open>Full redraw\<close>

lemma find_last_col_blank:
  "(\<forall>c. int c \<le> k \<longrightarrow> character (cells c) = 0x20 \<and> attribute (cells c) AND 0x70 = 0) \<Longrightarrow>
   find_last_col cells k < 0"
proof (induction cells k rule: find_last_col.induct)
  case (1 cells last_col)
  show ?case
  proof (cases "last_col \<ge> 0")
    case True
    with "1.prems" have b: "character (cells (nat last_col)) = 0x20
        \<and> attribute (cells (nat last_col)) AND 0x70 = 0"
      by simp
    have "find_last_col cells (last_col - 1) < 0"
      by (rule "1.IH") (use True b "1.prems" in auto)
    then show ?thesis
      using True b by (subst find_last_col.simps) simp
  next
    case False
    then show ?thesis by (subst find_last_col.simps) simp
  qed
qed

lemma full_cells_none: "k < 0 \<Longrightarrow> fold (full_cell r) [0..<nat (k + 1)] s = s"
  by simp

lemma full_row_blank:
  assumes "ansi_attr s = 0x07"
    and "\<forall>c. int c < cols s \<longrightarrow> current s r c = \<lparr>character = 0x20, attribute = 0x07\<rparr>"
  shows "full_row r s = s\<lparr>text_buffer := text_buffer s @ (if 0 < r then [0x0D, 0x0A] else [])\<rparr>"
proof -
  have lt: "find_last_col (current s r) (cols s - 1) < 0"
    by (rule find_last_col_blank) (use assms(2) in auto)
  show ?thesis
  proof (cases "0 < r")
    case True
    then show ?thesis
      using assms(1) lt by (simp add: full_row_def Let_def full_cells_none)
  next
    case False
    then show ?thesis
      using assms(1) lt by (simp add: full_row_def Let_def full_cells_none)
  qed
qed

lemma fold_full_row_blank:
  assumes "ansi_attr s = 0x07"
    and "\<forall>r \<in> set rs. \<forall>c. int c < cols s \<longrightarrow>
           current s r c = \<lparr>character = 0x20, attribute = 0x07\<rparr>"
  shows "fold full_row rs s
           = s\<lparr>text_buffer := text_buffer s
                  @ concat (map (\<lambda>r. if 0 < r then [0x0D, 0x0A] else []) rs)\<rparr>"
  using assms
proof (induction rs arbitrary: s)
  case Nil
  then show ?case by simp
next
  case (Cons r rs)
  let ?s' = "s\<lparr>text_buffer := text_buffer s @ (if 0 < r then [0x0D, 0x0A] else [])\<rparr>"
  have step: "full_row r s = ?s'"
    by (rule full_row_blank) (use Cons.prems in auto)
  have "fold full_row rs ?s' = ?s'\<lparr>text_buffer := text_buffer ?s'
                  @ concat (map (\<lambda>r. if 0 < r then [0x0D, 0x0A] else []) rs)\<rparr>"
    by (rule Cons.IH) (use Cons.prems in auto)
  then show ?case by (simp add: step)
qed

lemma concat_replicate_comm: "concat (replicate n x) @ x = x @ concat (replicate n x)"
  by (induction n) simp_all

lemma newline_count:
  "concat (map (\<lambda>r. if 0 < r then x else []) [0..<Suc n]) = concat (replicate n x)"
proof (induction n)
  case 0
  show ?case by simp
next
  case (Suc n)
  have "[0..<Suc (Suc n)] = [0..<Suc n] @ [Suc n]" by simp
  then have "concat (map (\<lambda>r. if 0 < r then x else []) [0..<Suc (Suc n)])
      = concat (map (\<lambda>r. if 0 < r then x else []) [0..<Suc n]) @ x"
    by (simp del: upt_Suc)
  also have "\<dots> = concat (replicate n x) @ x" by (simp only: Suc.IH)
  also have "\<dots> = concat (replicate (Suc n) x)" by (simp add: concat_replicate_comm)
  finally show ?case .
qed

lemma last_newlines:
  assumes "0 < n"
  shows "last (xs @ concat (replicate n [a, b])) = b"
proof -
  from assms obtain m where n: "n = Suc m" by (cases n) auto
  have "concat (replicate (Suc m) [a, b]) = concat (replicate m [a, b]) @ [a, b]"
    using concat_replicate_comm[of m "[a, b]"] by simp
  then show ?thesis unfolding n by (simp del: replicate_Suc)
qed

lemma blank_rows_rendered:
  assumes "force_redraw s" and "rows s = 25"
    and "\<forall>r c. r < 25 \<longrightarrow> int c < cols s \<longrightarrow>
           current s r c = \<lparr>character = 0x20, attribute = 0x07\<rparr>"
  shows "fold full_row [0..<nat (rows s)]
           (EmitSetAttribute 0x07 (EmitClearScreen (s\<lparr>text_buffer := [], force_redraw := False\<rparr>)))
         = s\<lparr>text_buffer := [0x1B, 0x5B, 0x3F, 0x32, 0x35, 0x6C, 0x1B, 0x5B, 0x32, 0x4A,
                              0x1B, 0x5B, 0x48, 0x1B, 0x5B, 0x30, 0x3B, 0x33, 0x37, 0x3B,
                              0x34, 0x30, 0x6D] @ concat (replicate 24 [0x0D, 0x0A]),
             force_redraw := False, ansi_attr := 0x07, ansi_row := 0, ansi_col := 0\<rparr>"
proof -
  let ?a = "EmitSetAttribute 0x07 (EmitClearScreen (s\<lparr>text_buffer := [], force_redraw := False\<rparr>))"
  have n: "nat (rows s) = Suc 24" using assms(2) by simp
  have a: "?a = s\<lparr>text_buffer := [0x1B, 0x5B, 0x3F, 0x32, 0x35, 0x6C, 0x1B, 0x5B, 0x32, 0x4A,
                              0x1B, 0x5B, 0x48, 0x1B, 0x5B, 0x30, 0x3B, 0x33, 0x37, 0x3B,
                              0x34, 0x30, 0x6D],
             force_redraw := False, ansi_attr := 0x07, ansi_row := 0, ansi_col := 0\<rparr>"
    by (simp add: EmitSetAttribute_def EmitClearScreen_def Let_def sgr_bytes_07)
  have "fold full_row [0..<Suc 24] ?a
          = ?a\<lparr>text_buffer := text_buffer ?a
                  @ concat (map (\<lambda>r. if 0 < r then [0x0D, 0x0A] else []) [0..<Suc 24])\<rparr>"
    by (rule fold_full_row_blank) (use assms(3) in \<open>auto simp: a\<close>)
  then show ?thesis
    unfolding n newline_count by (simp add: a)
qed


lemma rows_after_clear [simp]: "rows (EmitSetAttribute a (EmitClearScreen t)) = rows t"
  by (simp add: EmitSetAttribute_def EmitClearScreen_def Let_def)

lemma blank_full_redraw_same_cursor:
  assumes "force_redraw s" and "rows s = 25"
    and "\<forall>r c. r < 25 \<longrightarrow> int c < cols s \<longrightarrow>
           current s r c = \<lparr>character = 0x20, attribute = 0x07\<rparr>"
    and "cursor s = prev_cursor s"
  shows "text_buffer (GenerateTextOutput s)
           = [0x1B, 0x5B, 0x3F, 0x32, 0x35, 0x6C, 0x1B, 0x5B, 0x32, 0x4A,
              0x1B, 0x5B, 0x48, 0x1B, 0x5B, 0x30, 0x3B, 0x33, 0x37, 0x3B,
              0x34, 0x30, 0x6D] @ concat (replicate 24 [0x0D, 0x0A])"
  using assms(1,4)
  by (simp add: GenerateTextOutput_def Let_def blank_rows_rendered[OF assms(1,2,3)]
      cursor_ne_def FlushTextOutput_def)

lemma blank_full_redraw_cursor_shown:
  assumes "force_redraw s" and "rows s = 25"
    and "\<forall>r c. r < 25 \<longrightarrow> int c < cols s \<longrightarrow>
           current s r c = \<lparr>character = 0x20, attribute = 0x07\<rparr>"
    and "cursor s = \<lparr>row = 0, col = 0, visible = True\<rparr>"
    and "\<not> visible (prev_cursor s)"
  shows "text_buffer (GenerateTextOutput s)
           = [0x1B, 0x5B, 0x3F, 0x32, 0x35, 0x6C, 0x1B, 0x5B, 0x32, 0x4A,
              0x1B, 0x5B, 0x48, 0x1B, 0x5B, 0x30, 0x3B, 0x33, 0x37, 0x3B,
              0x34, 0x30, 0x6D] @ concat (replicate 24 [0x0D, 0x0A])
             @ [0x1B, 0x5B, 0x31, 0x3B, 0x31, 0x48] @ [0x1B, 0x5B, 0x3F, 0x32, 0x35, 0x68]"
  using assms(1,4,5)
  by (simp add: GenerateTextOutput_def Let_def blank_rows_rendered[OF assms(1,2,3)]
      cursor_ne_def FlushTextOutput_def EmitMoveCursor_def EmitCursorVisibility_def
      move_bytes_0_0)

text \<open>
  C4. Full-redraw frame for a blank 25-row screen. The specification states: with
  \<open>force_redraw\<close> true, every cell \<open>(0x20, 0x07)\<close>, 25 rows and the cursor visible at
  (0,0), the payload begins with hide-cursor, clear, home and the SGR of \<open>0x07\<close>, holds
  exactly 24 CR LF pairs and ends with show-cursor \<open>1B 5B 3F 32 35 68\<close>.
  \<open>blank_full_redraw_cursor_shown\<close> above shows that it does when the previously
  rendered cursor was hidden. The theorem below evaluates the code where the previously
  rendered cursor is the same visible cursor (a periodic resync or a REFRESH of an
  unchanged screen): the frame still begins by hiding the terminal's cursor, but it ends
  with the last CR LF; no show-cursor follows, although the cursor is visible.
\<close>

theorem full_redraw_leaves_cursor_hidden:
  "force_redraw blank_redraw_stream \<and> rows blank_redraw_stream = 25
   \<and> cursor blank_redraw_stream = \<lparr>row = 0, col = 0, visible = True\<rparr>
   \<and> text_buffer (GenerateTextOutput blank_redraw_stream)
        = [0x1B, 0x5B, 0x3F, 0x32, 0x35, 0x6C, 0x1B, 0x5B, 0x32, 0x4A,
           0x1B, 0x5B, 0x48, 0x1B, 0x5B, 0x30, 0x3B, 0x33, 0x37, 0x3B,
           0x34, 0x30, 0x6D] @ concat (replicate 24 [0x0D, 0x0A])
   \<and> last (text_buffer (GenerateTextOutput blank_redraw_stream)) = 0x0A"
proof -
  have h: "force_redraw blank_redraw_stream" "rows blank_redraw_stream = 25"
    "\<forall>r c. r < 25 \<longrightarrow> int c < cols blank_redraw_stream \<longrightarrow>
           current blank_redraw_stream r c = \<lparr>character = 0x20, attribute = 0x07\<rparr>"
    "cursor blank_redraw_stream = prev_cursor blank_redraw_stream"
    by (simp_all add: blank_redraw_stream_def steady_stream_def connected_stream_def
        initial_stream_def blank_grid_def)
  have c: "cursor blank_redraw_stream = \<lparr>row = 0, col = 0, visible = True\<rparr>"
    by (simp add: blank_redraw_stream_def steady_stream_def)
  note out = blank_full_redraw_same_cursor[OF h]
  have "last (text_buffer (GenerateTextOutput blank_redraw_stream)) = 0x0A"
    unfolding out by (rule last_newlines) simp
  with h c out show ?thesis by blast
qed

lemma newline_count_from:
  "0 < a \<Longrightarrow> concat (map (\<lambda>r. if 0 < r then x else []) [a..<a + n]) = concat (replicate n x)"
proof (induction n)
  case 0
  show ?case by simp
next
  case (Suc n)
  have "[a..<a + Suc n] = [a..<a + n] @ [a + n]" by simp
  then have "concat (map (\<lambda>r. if 0 < r then x else []) [a..<a + Suc n])
      = concat (map (\<lambda>r. if 0 < r then x else []) [a..<a + n]) @ x"
    using Suc.prems by simp
  also have "\<dots> = concat (replicate n x) @ x" using Suc by simp
  also have "\<dots> = concat (replicate (Suc n) x)" by (simp add: concat_replicate_comm)
  finally show ?case .
qed

text \<open>
  C9. Attribute stickiness. The specification states, for a whole pass: after a cell has
  been emitted
  with attribute \<open>a\<close>, the next cell emitted with the same attribute produces no SGR
  sequence. The full redraw of \<open>two_row_stream\<close> emits \<open>A\<close> (end of row 0) and then
  \<open>B\<close> (start of row 1), both with attribute \<open>0x1F\<close>, and the bytes between them are
  the SGR of \<open>0x07\<close>, CR LF and the SGR of \<open>0x1F\<close> again: the row boundary resets the
  attribute, by design, to keep the background from bleeding.
\<close>

theorem sgr_repeated_across_rows:
  "attribute (current two_row_stream 0 1) = attribute (current two_row_stream 1 0)
   \<and> text_buffer (GenerateTextOutput two_row_stream)
       = [0x1B, 0x5B, 0x3F, 0x32, 0x35, 0x6C, 0x1B, 0x5B, 0x32, 0x4A, 0x1B, 0x5B, 0x48]
         @ [0x1B, 0x5B, 0x30, 0x3B, 0x33, 0x37, 0x3B, 0x34, 0x30, 0x6D] @ [0x20]
         @ [0x1B, 0x5B, 0x30, 0x3B, 0x39, 0x37, 0x3B, 0x34, 0x34, 0x6D] @ [0x41]
         @ [0x1B, 0x5B, 0x30, 0x3B, 0x33, 0x37, 0x3B, 0x34, 0x30, 0x6D] @ [0x0D, 0x0A]
         @ [0x1B, 0x5B, 0x30, 0x3B, 0x39, 0x37, 0x3B, 0x34, 0x34, 0x6D] @ [0x42]
         @ [0x1B, 0x5B, 0x30, 0x3B, 0x33, 0x37, 0x3B, 0x34, 0x30, 0x6D]
         @ concat (replicate 22 [0x0D, 0x0A])"
proof -
  let ?s1 = "two_row_stream\<lparr>text_buffer := [], force_redraw := False\<rparr>"
  let ?a = "EmitSetAttribute 0x07 (EmitClearScreen ?s1)"
  let ?pre = "[0x1B, 0x5B, 0x3F, 0x32, 0x35, 0x6C, 0x1B, 0x5B, 0x32, 0x4A, 0x1B, 0x5B, 0x48,
               0x1B, 0x5B, 0x30, 0x3B, 0x33, 0x37, 0x3B, 0x34, 0x30, 0x6D] :: u8 list"
  let ?mid = "[0x20, 0x1B, 0x5B, 0x30, 0x3B, 0x39, 0x37, 0x3B, 0x34, 0x34, 0x6D, 0x41,
               0x1B, 0x5B, 0x30, 0x3B, 0x33, 0x37, 0x3B, 0x34, 0x30, 0x6D, 0x0D, 0x0A,
               0x1B, 0x5B, 0x30, 0x3B, 0x39, 0x37, 0x3B, 0x34, 0x34, 0x6D, 0x42,
               0x1B, 0x5B, 0x30, 0x3B, 0x33, 0x37, 0x3B, 0x34, 0x30, 0x6D] :: u8 list"
  have d: "cols two_row_stream = 2" "rows two_row_stream = 24" "force_redraw two_row_stream"
    "cursor two_row_stream = prev_cursor two_row_stream"
    "current two_row_stream 0 0 = \<lparr>character = 0x20, attribute = 0x07\<rparr>"
    "current two_row_stream 0 (Suc 0) = \<lparr>character = 0x41, attribute = 0x1F\<rparr>"
    "current two_row_stream (Suc 0) 0 = \<lparr>character = 0x42, attribute = 0x1F\<rparr>"
    "current two_row_stream (Suc 0) (Suc 0) = \<lparr>character = 0x20, attribute = 0x07\<rparr>"
    "\<And>r c. 2 \<le> r \<Longrightarrow> current two_row_stream r c = \<lparr>character = 0x20, attribute = 0x07\<rparr>"
    by (simp_all add: two_row_stream_def steady_stream_def connected_stream_def
        initial_stream_def blank_grid_def)
  have a: "?a = two_row_stream\<lparr>text_buffer := ?pre,
             force_redraw := False, ansi_attr := 0x07, ansi_row := 0, ansi_col := 0\<rparr>"
    by (simp add: EmitSetAttribute_def EmitClearScreen_def Let_def sgr_bytes_07)
  have l0: "find_last_col (current two_row_stream 0) 1 = 1"
    by (subst find_last_col.simps) (simp add: d)
  have l1: "find_last_col (current two_row_stream (Suc 0)) 1 = 0"
    by (subst find_last_col.simps, subst find_last_col.simps) (simp add: d)
  have u2: "[0..<2] = [0, Suc 0]" by (simp add: numeral_2_eq_2)
  have r0: "full_row 0 ?a = two_row_stream\<lparr>text_buffer := ?pre @ take 12 ?mid,
             force_redraw := False, ansi_attr := 0x1F, ansi_row := 1, ansi_col := 0\<rparr>"
    unfolding a
    apply (simp add: full_row_def Let_def d l0)
    apply (simp add: full_cell_def Let_def d EmitCharacter_def u2
        EmitSetAttribute_def sgr_bytes_1F utf8_bytes_ascii)
    done
  have r1: "full_row 1 (full_row 0 ?a) = two_row_stream\<lparr>text_buffer := ?pre @ ?mid,
             force_redraw := False, ansi_attr := 0x07, ansi_row := 1, ansi_col := 1\<rparr>"
    unfolding r0
    apply (simp add: full_row_def Let_def d l1 EmitSetAttribute_def sgr_bytes_07)
    apply (simp add: full_cell_def Let_def d EmitCharacter_def
        EmitSetAttribute_def sgr_bytes_1F sgr_bytes_07 utf8_bytes_ascii)
    done
  let ?r1 = "two_row_stream\<lparr>text_buffer := ?pre @ ?mid,
             force_redraw := False, ansi_attr := 0x07, ansi_row := 1, ansi_col := 1\<rparr>"
  have rest: "fold full_row [2..<2 + 22] ?r1
      = ?r1\<lparr>text_buffer := text_buffer ?r1
            @ concat (map (\<lambda>r. if 0 < r then [0x0D, 0x0A] else []) [2..<2 + 22])\<rparr>"
    by (rule fold_full_row_blank) (simp_all add: d)
  have split: "[0..<nat (rows ?a)] = 0 # 1 # [2..<2 + 22]"
    by (simp add: a d upt_conv_Cons)
  have nl: "concat (map (\<lambda>r. if 0 < r then [0x0D, 0x0A] else []) [2..<2 + 22])
              = concat (replicate 22 [0x0D, 0x0A :: u8])"
    by (rule newline_count_from) simp
  have "fold full_row [0..<nat (rows ?a)] ?a
          = fold full_row [2..<2 + 22] (full_row 1 (full_row 0 ?a))"
    unfolding split by (simp only: fold_simps comp_apply)
  also have "\<dots> = fold full_row [2..<2 + 22] ?r1"
    by (simp only: r1)
  also have "\<dots> = ?r1\<lparr>text_buffer := text_buffer ?r1
            @ concat (map (\<lambda>r. if 0 < r then [0x0D, 0x0A] else []) [2..<2 + 22])\<rparr>"
    by (rule rest)
  also have "\<dots> = two_row_stream\<lparr>text_buffer := ?pre @ ?mid @ concat (replicate 22 [0x0D, 0x0A]),
             force_redraw := False, ansi_attr := 0x07, ansi_row := 1, ansi_col := 1\<rparr>"
    unfolding nl by simp
  finally have loop: "fold full_row [0..<nat (rows ?a)] ?a
      = two_row_stream\<lparr>text_buffer := ?pre @ ?mid @ concat (replicate 22 [0x0D, 0x0A]),
             force_redraw := False, ansi_attr := 0x07, ansi_row := 1, ansi_col := 1\<rparr>" .
  have "text_buffer (GenerateTextOutput two_row_stream)
          = ?pre @ ?mid @ concat (replicate 22 [0x0D, 0x0A])"
    using d(3,4) loop
    by (simp add: GenerateTextOutput_def Let_def cursor_ne_def FlushTextOutput_def)
  then show ?thesis by (simp add: d)
qed

section \<open>Attribute stickiness of a whole pass\<close>

lemma sticky_examples:
  "\<not> sticky [Glyph 0x1F 0x41, Sgr 0x1F, Glyph 0x1F 0x42]"
  "\<not> sticky [Glyph 0x07 0x41, Sgr 0x07, Newline, Glyph 0x07 0x42]"
  "\<not> sticky [Glyph 0x1F 0x41, Sgr 0x07, Sgr 0x1F, Glyph 0x1F 0x42]"
  "sticky [Glyph 0x1F 0x41, Sgr 0x07, Newline, Sgr 0x1F, Glyph 0x1F 0x42]"
  "sticky [Glyph 0x1F 0x41, Move 2 7, Glyph 0x1F 0x42, Sgr 0x07, Glyph 0x07 0x43]"
  by (simp_all add: sticky_def)

lemma items_bytes_simps [simp]:
  "items_bytes [] = []"
  "items_bytes (x # xs) = item_bytes x @ items_bytes xs"
  "items_bytes (xs @ ys) = items_bytes xs @ items_bytes ys"
  by (simp_all add: items_bytes_def)

lemma full_cell_fields [simp]:
  "current (full_cell r c s) = current s" "previous (full_cell r c s) = previous s"
  "cols (full_cell r c s) = cols s" "rows (full_cell r c s) = rows s"
  "cursor (full_cell r c s) = cursor s" "prev_cursor (full_cell r c s) = prev_cursor s"
  by (simp_all add: full_cell_def Let_def EmitCharacter_def EmitSetAttribute_def)

lemma full_cell_out:
  "text_buffer (full_cell r c s)
     = text_buffer s @ items_bytes (run_items (ansi_attr s) [current s r c])"
  "ansi_attr (full_cell r c s) = attribute (current s r c)"
  by (simp_all add: full_cell_def Let_def EmitCharacter_def EmitSetAttribute_def)

lemma fold_full_cell_fields [simp]:
  "current (fold (full_cell r) cs s) = current s"
  "previous (fold (full_cell r) cs s) = previous s"
  "cols (fold (full_cell r) cs s) = cols s" "rows (fold (full_cell r) cs s) = rows s"
  "cursor (fold (full_cell r) cs s) = cursor s"
  "prev_cursor (fold (full_cell r) cs s) = prev_cursor s"
  by (induction cs arbitrary: s) simp_all

lemma fold_full_cell_out:
  "text_buffer (fold (full_cell r) cs s)
     = text_buffer s @ items_bytes (run_items (ansi_attr s) (map (current s r) cs))
   \<and> ansi_attr (fold (full_cell r) cs s) = run_attr (ansi_attr s) (map (current s r) cs)"
proof (induction cs arbitrary: s)
  case Nil
  show ?case by simp
next
  case (Cons c cs)
  show ?case
    using Cons.IH[of "full_cell r c s"]
    by (simp add: full_cell_out)
qed


lemma full_row_fields [simp]:
  "current (full_row r s) = current s" "previous (full_row r s) = previous s"
  "cols (full_row r s) = cols s" "rows (full_row r s) = rows s"
  "cursor (full_row r s) = cursor s" "prev_cursor (full_row r s) = prev_cursor s"
  by (simp_all add: full_row_def Let_def EmitSetAttribute_def)

lemma full_row_out:
  "text_buffer (full_row r s)
     = text_buffer s @ items_bytes (row_items (current s) (cols s) r (ansi_attr s))
   \<and> ansi_attr (full_row r s) = row_end_attr (current s) (cols s) r (ansi_attr s)"
proof -
  define s1 where "s1 = (if r > 0 then
                  (let s' = (if ansi_attr s \<noteq> 0x07 then EmitSetAttribute 0x07 s else s)
                   in s'\<lparr>text_buffer := text_buffer s' @ [0x0D, 0x0A]\<rparr>)
                else s)"
  define lc where "lc = find_last_col (current s r) (cols s - 1)"
  define s2 where "s2 = fold (full_cell r) [0..<nat (lc + 1)] s1"
  have k1: "current s1 = current s" "cols s1 = cols s"
    by (simp_all add: s1_def Let_def EmitSetAttribute_def)
  have a1: "ansi_attr s1 = row_start_attr r (ansi_attr s)"
    by (simp add: s1_def Let_def EmitSetAttribute_def row_start_attr_def)
  have t1: "text_buffer s1 = text_buffer s
      @ items_bytes (if r > 0 then (if ansi_attr s \<noteq> 0x07 then [Sgr 0x07] else []) @ [Newline]
                     else [])"
    by (simp add: s1_def Let_def EmitSetAttribute_def)
  have cells: "map (current s1 r) [0..<nat (lc + 1)] = row_cells (current s) (cols s) r"
    by (simp add: row_cells_def lc_def k1)
  have t2: "text_buffer s2 = text_buffer s1
      @ items_bytes (run_items (row_start_attr r (ansi_attr s)) (row_cells (current s) (cols s) r))"
    and a2: "ansi_attr s2 = run_attr (row_start_attr r (ansi_attr s)) (row_cells (current s) (cols s) r)"
    using fold_full_cell_out[of r "[0..<nat (lc + 1)]" s1]
    by (simp_all add: s2_def a1 cells)
  have k2: "cols s2 = cols s" by (simp add: s2_def k1)
  have fr: "full_row r s = (if ansi_attr s2 \<noteq> 0x07 \<and> lc < cols s2 - 1
                            then EmitSetAttribute 0x07 s2 else s2)"
    unfolding s2_def lc_def s1_def
    by (simp add: full_row_def Let_def EmitSetAttribute_def)
  have rr: "row_resets (current s) (cols s) r (ansi_attr s)
              \<longleftrightarrow> ansi_attr s2 \<noteq> 0x07 \<and> lc < cols s2 - 1"
    by (simp add: row_resets_def a2 k2 lc_def)
  show ?thesis
    unfolding fr rr[symmetric]
    by (simp add: EmitSetAttribute_def t2 t1 a2 row_items_def row_end_attr_def)
qed

lemma fold_full_row_fields [simp]:
  "current (fold full_row rs s) = current s" "previous (fold full_row rs s) = previous s"
  "cols (fold full_row rs s) = cols s" "rows (fold full_row rs s) = rows s"
  "cursor (fold full_row rs s) = cursor s" "prev_cursor (fold full_row rs s) = prev_cursor s"
  by (induction rs arbitrary: s) simp_all

lemma fold_full_row_out:
  "text_buffer (fold full_row rs s)
     = text_buffer s @ items_bytes (rows_items (current s) (cols s) (ansi_attr s) rs)"
proof (induction rs arbitrary: s)
  case Nil
  show ?case by simp
next
  case (Cons r rs)
  show ?case
    using Cons.IH[of "full_row r s"] full_row_out[of r s]
    by simp
qed


lemma walk_append:
  "walk_items cur prv n a w (ps @ qs)
     = walk_items cur prv n a w ps
       @ walk_items cur prv n (fst (walk_end cur prv n a w ps)) (snd (walk_end cur prv n a w ps)) qs"
  "walk_end cur prv n a w (ps @ qs)
     = walk_end cur prv n (fst (walk_end cur prv n a w ps)) (snd (walk_end cur prv n a w ps)) qs"
  by (induction cur prv n a w ps rule: walk_items.induct) simp_all

lemma diff_cell_out:
  assumes "diff_cell r c (s, w) = (s', w')"
  shows "text_buffer s' = text_buffer s
           @ items_bytes (walk_items (current s) (previous s) (cols s) (ansi_attr s) w [(r, c)])"
    and "(ansi_attr s', w') = walk_end (current s) (previous s) (cols s) (ansi_attr s) w [(r, c)]"
    and "current s' = current s" and "previous s' = previous s" and "cols s' = cols s"
    and "rows s' = rows s" and "cursor s' = cursor s" and "prev_cursor s' = prev_cursor s"
  using assms
  by (auto simp: diff_cell_def Let_def EmitCharacter_def EmitSetAttribute_def
      EmitMoveCursor_def next_head_def split: if_splits prod.splits)


lemma fold_diff_cell_out:
  "fold (diff_cell r) cs (s, w) = (s', w') \<Longrightarrow>
   text_buffer s' = text_buffer s
     @ items_bytes (walk_items (current s) (previous s) (cols s) (ansi_attr s) w (map (Pair r) cs))
   \<and> (ansi_attr s', w')
       = walk_end (current s) (previous s) (cols s) (ansi_attr s) w (map (Pair r) cs)
   \<and> current s' = current s \<and> previous s' = previous s \<and> cols s' = cols s
   \<and> rows s' = rows s \<and> cursor s' = cursor s \<and> prev_cursor s' = prev_cursor s"
proof (induction cs arbitrary: s w)
  case Nil
  then show ?case by simp
next
  case (Cons c cs)
  obtain s1 w1 where step: "diff_cell r c (s, w) = (s1, w1)"
    by (cases "diff_cell r c (s, w)") auto
  note o = diff_cell_out[OF step]
  from Cons.prems have rest: "fold (diff_cell r) cs (s1, w1) = (s', w')"
    by (simp add: step)
  note ih = Cons.IH[OF rest]
  have e: "fst (walk_end (current s) (previous s) (cols s) (ansi_attr s) w [(r, c)]) = ansi_attr s1"
    "snd (walk_end (current s) (previous s) (cols s) (ansi_attr s) w [(r, c)]) = w1"
    using o(2) by (metis fst_conv, metis snd_conv)
  have ap: "map (Pair r) (c # cs) = [(r, c)] @ map (Pair r) cs" by simp
  show ?case
    unfolding ap walk_append e
    using ih o(1,3-8) by simp
qed

lemma diff_row_out:
  "diff_row r (s, w) = (s', w') \<Longrightarrow>
   text_buffer s' = text_buffer s
     @ items_bytes (walk_items (current s) (previous s) (cols s) (ansi_attr s) w
                      (map (Pair r) [0..<nat (cols s)]))
   \<and> (ansi_attr s', w')
       = walk_end (current s) (previous s) (cols s) (ansi_attr s) w
           (map (Pair r) [0..<nat (cols s)])
   \<and> current s' = current s \<and> previous s' = previous s \<and> cols s' = cols s
   \<and> rows s' = rows s \<and> cursor s' = cursor s \<and> prev_cursor s' = prev_cursor s"
  unfolding diff_row_def by (simp add: fold_diff_cell_out)

lemma fold_diff_row_out:
  "fold diff_row rs (s, w) = (s', w') \<Longrightarrow>
   text_buffer s' = text_buffer s
     @ items_bytes (walk_items (current s) (previous s) (cols s) (ansi_attr s) w
                      (List.product rs [0..<nat (cols s)]))
   \<and> (ansi_attr s', w')
       = walk_end (current s) (previous s) (cols s) (ansi_attr s) w
           (List.product rs [0..<nat (cols s)])
   \<and> current s' = current s \<and> previous s' = previous s \<and> cols s' = cols s
   \<and> rows s' = rows s \<and> cursor s' = cursor s \<and> prev_cursor s' = prev_cursor s"
proof (induction rs arbitrary: s w)
  case Nil
  then show ?case by simp
next
  case (Cons r rs)
  obtain s1 w1 where step: "diff_row r (s, w) = (s1, w1)"
    by (cases "diff_row r (s, w)") auto
  note o = diff_row_out[OF step]
  from Cons.prems have rest: "fold diff_row rs (s1, w1) = (s', w')"
    by (simp add: step)
  note ih = Cons.IH[OF rest]
  have e: "fst (walk_end (current s) (previous s) (cols s) (ansi_attr s) w
                  (map (Pair r) [0..<nat (cols s)])) = ansi_attr s1"
    "snd (walk_end (current s) (previous s) (cols s) (ansi_attr s) w
                  (map (Pair r) [0..<nat (cols s)])) = w1"
    using o by (metis fst_conv, metis snd_conv)
  show ?case
    unfolding product.simps walk_append e
    using ih o by simp
qed

lemma text_buffer_Flush [simp]: "text_buffer (FlushTextOutput s) = text_buffer s"
  by (simp add: FlushTextOutput_def)

lemma pass_refines:
  "text_buffer (GenerateTextOutput s) = items_bytes (pass_items s)"
proof -
  let ?s1 = "s\<lparr>text_buffer := [], force_redraw := False\<rparr>"
  define s2 where "s2 = (if force_redraw s then
                  (let a = EmitSetAttribute 0x07 (EmitClearScreen ?s1);
                       b = fold full_row [0..<nat (rows a)] a
                   in b\<lparr>ansi_row := rows b - 1, ansi_col := 0\<rparr>)
                else fst (fold diff_row [0..<nat (rows ?s1)] (?s1, -1, -1)))"
  have full: "text_buffer s2 = items_bytes (full_items s) \<and> cursor s2 = cursor s
      \<and> prev_cursor s2 = prev_cursor s" if "force_redraw s"
  proof -
    let ?a = "EmitSetAttribute 0x07 (EmitClearScreen ?s1)"
    have a: "text_buffer ?a = items_bytes [CursorVis False, ClearScreen, Sgr 0x07]"
      "ansi_attr ?a = 0x07" "current ?a = current s" "cols ?a = cols s" "rows ?a = rows s"
      "cursor ?a = cursor s" "prev_cursor ?a = prev_cursor s"
      by (simp_all add: EmitSetAttribute_def EmitClearScreen_def Let_def)
    show ?thesis
      using that fold_full_row_out[of "[0..<nat (rows s)]" ?a]
      by (simp add: s2_def Let_def a full_items_def)
  qed
  have diff: "text_buffer s2 = items_bytes (diff_items s) \<and> cursor s2 = cursor s
      \<and> prev_cursor s2 = prev_cursor s" if "\<not> force_redraw s"
  proof -
    obtain s' w' where f: "fold diff_row [0..<nat (rows s)] (?s1, -1, -1) = (s', w')"
      by (cases "fold diff_row [0..<nat (rows s)] (?s1, -1, -1)") auto
    from fold_diff_row_out[OF f] that show ?thesis
      by (simp add: s2_def f diff_items_def)
  qed
  have s2: "text_buffer s2 = items_bytes (if force_redraw s then full_items s else diff_items s)"
    "cursor s2 = cursor s" "prev_cursor s2 = prev_cursor s"
    using full diff by auto
  have g: "GenerateTextOutput s =
     (let s3 = (if cursor_ne (cursor s2) (prev_cursor s2) then
                  (let a = (if visible (cursor s2)
                            then EmitMoveCursor (uint (row (cursor s2))) (uint (col (cursor s2))) s2
                            else s2)
                   in if visible (cursor a) \<noteq> visible (prev_cursor a)
                      then EmitCursorVisibility (visible (cursor a)) a else a)
                else s2);
          s4 = FlushTextOutput s3
      in s4\<lparr>previous := current s4, prev_cursor := cursor s4\<rparr>)"
    unfolding s2_def by (simp add: GenerateTextOutput_def Let_def)
  show ?thesis
    unfolding g
    by (simp add: Let_def s2 pass_items_def cursor_items_def EmitMoveCursor_def
        EmitCursorVisibility_def)
qed


lemma cell_inv_glyph:
  "cell_inv a st \<Longrightarrow>
   cell_inv c (fold scan_step ((if c \<noteq> a then [Sgr c] else []) @ [Glyph c ch]) st)"
  by (cases st) (auto simp: cell_inv_def)

lemma cell_inv_move: "cell_inv a st \<Longrightarrow> cell_inv a (scan_step (Move r c) st)"
  by simp

lemma cell_inv_run:
  "cell_inv a st \<Longrightarrow> cell_inv (run_attr a cells) (fold scan_step (run_items a cells) st)"
proof (induction cells arbitrary: a st)
  case Nil
  then show ?case by simp
next
  case (Cons x xs)
  have "cell_inv (attribute x)
          (fold scan_step ((if attribute x \<noteq> a then [Sgr (attribute x)] else [])
                             @ [Glyph (attribute x) (character x)]) st)"
    using Cons.prems by (rule cell_inv_glyph)
  from Cons.IH[OF this] show ?case by simp
qed

lemma row_inv_prefix:
  "row_inv a st \<Longrightarrow>
   cell_inv 0x07 (fold scan_step ((if a \<noteq> 0x07 then [Sgr 0x07] else []) @ [Newline]) st)"
  by (cases st) (auto simp: cell_inv_def row_inv_def)

lemma row_inv_suffix:
  "cell_inv a st \<Longrightarrow>
   row_inv (if a \<noteq> 0x07 \<and> p then 0x07 else a)
     (fold scan_step (if a \<noteq> 0x07 \<and> p then [Sgr 0x07] else []) st)"
  by (cases st) (auto simp: cell_inv_def row_inv_def)

lemma row_inv_row:
  assumes "if r > 0 then row_inv a st else cell_inv a st"
  shows "row_inv (row_end_attr cur n r a) (fold scan_step (row_items cur n r a) st)"
proof -
  let ?pre = "if r > 0 then (if a \<noteq> 0x07 then [Sgr 0x07] else []) @ [Newline] else []"
  let ?a1 = "row_start_attr r a"
  let ?cells = "row_cells cur n r"
  let ?a2 = "run_attr ?a1 ?cells"
  let ?p = "find_last_col (cur r) (n - 1) < n - 1"
  have 1: "cell_inv ?a1 (fold scan_step ?pre st)"
    using assms row_inv_prefix[of a st] by (auto simp: row_start_attr_def)
  have 2: "cell_inv ?a2 (fold scan_step (run_items ?a1 ?cells) (fold scan_step ?pre st))"
    using 1 by (rule cell_inv_run)
  have 3: "row_inv (if ?a2 \<noteq> 0x07 \<and> ?p then 0x07 else ?a2)
     (fold scan_step (if ?a2 \<noteq> 0x07 \<and> ?p then [Sgr 0x07] else [])
        (fold scan_step (run_items ?a1 ?cells) (fold scan_step ?pre st)))"
    using 2 by (rule row_inv_suffix)
  show ?thesis
    using 3 unfolding row_items_def row_end_attr_def row_resets_def by simp
qed

lemma row_inv_rows:
  "\<forall>r \<in> set rs. r > 0 \<Longrightarrow> row_inv a st \<Longrightarrow>
   \<exists>a'. row_inv a' (fold scan_step (rows_items cur n a rs) st)"
proof (induction rs arbitrary: a st)
  case Nil
  then show ?case by auto
next
  case (Cons r rs)
  have "row_inv (row_end_attr cur n r a) (fold scan_step (row_items cur n r a) st)"
    by (rule row_inv_row) (use Cons.prems in simp)
  from Cons.IH[OF _ this] Cons.prems(1) show ?case by simp
qed

lemma row_inv_ok: "row_inv a st \<Longrightarrow> fst st" "cell_inv a st \<Longrightarrow> fst st"
  by (cases st; simp add: row_inv_def cell_inv_def)+

lemma scan_cursor_items [simp]: "fold scan_step (cursor_items s) st = st"
  by (simp add: cursor_items_def)

lemma sticky_full: "sticky (full_items s @ cursor_items s)"
proof (cases "nat (rows s)")
  case 0
  then show ?thesis by (simp add: sticky_def full_items_def)
next
  case (Suc m)
  have u: "[0..<Suc m] = 0 # [1..<Suc m]" by (simp add: upt_conv_Cons)
  let ?st0 = "(True, None, True, False) :: scan_state"
  have "cell_inv 0x07 ?st0" by (simp add: cell_inv_def)
  then have "row_inv (row_end_attr (current s) (cols s) 0 0x07)
               (fold scan_step (row_items (current s) (cols s) 0 0x07) ?st0)"
    by (intro row_inv_row) simp
  then obtain a' where "row_inv a'
      (fold scan_step (rows_items (current s) (cols s)
          (row_end_attr (current s) (cols s) 0 0x07) [1..<Suc m])
        (fold scan_step (row_items (current s) (cols s) 0 0x07) ?st0))"
    using row_inv_rows[of "[1..<Suc m]"] by fastforce
  then show ?thesis
    unfolding sticky_def full_items_def Suc u
    by (auto dest: row_inv_ok(1))
qed

lemma cell_inv_walk:
  "cell_inv a st \<Longrightarrow>
   cell_inv (fst (walk_end cur prv n a w ps)) (fold scan_step (walk_items cur prv n a w ps) st)"
proof (induction cur prv n a w ps arbitrary: st rule: walk_items.induct)
  case (1 cur prv ncols a w)
  then show ?case by simp
next
  case (2 cur prv ncols a w r c ps)
  show ?case
  proof (cases "cur r c \<noteq> prv r c")
    case True
    let ?c = "attribute (cur r c)"
    have "cell_inv ?c (fold scan_step ((if ?c \<noteq> a then [Sgr ?c] else [])
                                          @ [Glyph ?c (character (cur r c))]) st)"
      using "2.prems" by (rule cell_inv_glyph)
    from "2.IH"(1)[OF True this] True show ?thesis
      by (cases "attribute (cur r c) = a") simp_all
  next
    case False
    with "2.IH"(2)[OF _ "2.prems"] show ?thesis by simp
  qed
qed

lemma sticky_diff: "sticky (diff_items s @ cursor_items s)"
proof -
  let ?ps = "List.product [0..<nat (rows s)] [0..<nat (cols s)]"
  have "cell_inv (ansi_attr s) (True, None, False, False)"
    by (simp add: cell_inv_def)
  then have "cell_inv (fst (walk_end (current s) (previous s) (cols s) (ansi_attr s) (-1, -1) ?ps))
      (fold scan_step (walk_items (current s) (previous s) (cols s) (ansi_attr s) (-1, -1) ?ps)
         (True, None, False, False))"
    by (rule cell_inv_walk)
  then have "fst (fold scan_step
      (walk_items (current s) (previous s) (cols s) (ansi_attr s) (-1, -1) ?ps)
      (True, None, False, False))"
    by (rule row_inv_ok(2))
  then show ?thesis
    by (simp add: sticky_def diff_items_def)
qed

text \<open>
  C9, as amended. The bytes one \<open>GenerateTextOutput\<close> pass renders are those of the item
  sequence \<open>pass_items\<close>, and that sequence is sticky: after a cell has been emitted
  with attribute \<open>a\<close>, the next cell emitted with the same attribute \<open>a\<close> has no SGR
  between the two, in a full redraw and in a differential update alike, except where a
  row boundary (CR LF) of a full redraw lies between them and \<open>a\<close> is not \<open>0x07\<close>:
  there the attribute is reset to \<open>0x07\<close> before the CR LF and the cell's SGR is
  emitted again.
\<close>

theorem attribute_stickiness:
  "text_buffer (GenerateTextOutput s) = items_bytes (pass_items s) \<and> sticky (pass_items s)"
  using pass_refines[of s] sticky_full[of s] sticky_diff[of s]
  by (simp add: pass_items_def)

lemma row_items_blank:
  assumes "r > 0"
    and "\<forall>c. int c < n \<longrightarrow> cur r c = \<lparr>character = 0x20, attribute = 0x07\<rparr>"
  shows "row_items cur n r 0x07 = [Newline] \<and> row_end_attr cur n r 0x07 = 0x07"
proof -
  have "find_last_col (cur r) (n - 1) < 0"
    by (rule find_last_col_blank) (use assms(2) in auto)
  then have "row_cells cur n r = []"
    by (simp add: row_cells_def)
  then show ?thesis
    using assms(1) by (simp add: row_items_def row_end_attr_def row_resets_def row_start_attr_def)
qed

lemma rows_items_blank:
  "\<forall>r \<in> set rs. r > 0 \<and> (\<forall>c. int c < n \<longrightarrow> cur r c = \<lparr>character = 0x20, attribute = 0x07\<rparr>)
   \<Longrightarrow> rows_items cur n 0x07 rs = replicate (length rs) Newline"
  by (induction rs) (simp_all add: row_items_blank)

lemma walk_same:
  "\<forall>p \<in> set ps. cur (fst p) (snd p) = prv (fst p) (snd p) \<Longrightarrow>
   walk_items cur prv n a w ps = [] \<and> walk_end cur prv n a w ps = (a, w)"
  by (induction cur prv n a w ps rule: walk_items.induct) simp_all

lemma product_append: "List.product (xs @ ys) zs = List.product xs zs @ List.product ys zs"
  by (induction xs) simp_all

lemma three_col_items: "pass_items three_col_stream
   = [CursorVis False, ClearScreen, Sgr 0x07,
      Sgr 0x1F, Glyph 0x1F 0x41, Glyph 0x1F 0x42, Sgr 0x07, Glyph 0x07 0x43,
      Newline, Glyph 0x07 0x44] @ replicate 22 Newline"
proof -
  let ?cur = "current three_col_stream"
  have d: "force_redraw three_col_stream" "cols three_col_stream = 3"
    "rows three_col_stream = 24" "cursor three_col_stream = prev_cursor three_col_stream"
    "?cur 0 0 = \<lparr>character = 0x41, attribute = 0x1F\<rparr>"
    "?cur 0 (Suc 0) = \<lparr>character = 0x42, attribute = 0x1F\<rparr>"
    "?cur 0 2 = \<lparr>character = 0x43, attribute = 0x07\<rparr>"
    "?cur (Suc 0) 0 = \<lparr>character = 0x44, attribute = 0x07\<rparr>"
    "?cur (Suc 0) (Suc 0) = \<lparr>character = 0x20, attribute = 0x07\<rparr>"
    "?cur (Suc 0) 2 = \<lparr>character = 0x20, attribute = 0x07\<rparr>"
    "\<And>r c. 2 \<le> r \<Longrightarrow> ?cur r c = \<lparr>character = 0x20, attribute = 0x07\<rparr>"
    by (simp_all add: three_col_stream_def steady_stream_def connected_stream_def
        initial_stream_def blank_grid_def)
  have l0: "find_last_col (?cur 0) 2 = 2"
    by (subst find_last_col.simps) (simp add: d)
  have l1: "find_last_col (?cur (Suc 0)) 2 = 0"
    by (subst find_last_col.simps, subst find_last_col.simps, subst find_last_col.simps)
       (simp add: d)
  have u3: "[0..<3] = [0, Suc 0, 2]" by (simp add: upt_conv_Cons)
  have r0: "row_items ?cur 3 0 0x07
              = [Sgr 0x1F, Glyph 0x1F 0x41, Glyph 0x1F 0x42, Sgr 0x07, Glyph 0x07 0x43]"
    "row_end_attr ?cur 3 0 0x07 = 0x07"
    by (simp_all add: row_items_def row_end_attr_def row_resets_def row_start_attr_def
        row_cells_def l0 u3 d)
  have r1: "row_items ?cur 3 (Suc 0) 0x07 = [Newline, Glyph 0x07 0x44]"
    "row_end_attr ?cur 3 (Suc 0) 0x07 = 0x07"
    by (simp_all add: row_items_def row_end_attr_def row_resets_def row_start_attr_def
        row_cells_def l1 d)
  have blank: "\<forall>r \<in> set [2..<24]. r > 0
      \<and> (\<forall>c. int c < 3 \<longrightarrow> ?cur r c = \<lparr>character = 0x20, attribute = 0x07\<rparr>)"
    by (simp add: d del: upt_rec_numeral)
  have len: "length [2..<24] = 22" by simp
  note rest = rows_items_blank[OF blank, unfolded len]
  have split: "[0..<24] = 0 # Suc 0 # [2..<24]"
    by (simp add: upt_conv_Cons)
  have "rows_items ?cur 3 0x07 [0..<24]
          = [Sgr 0x1F, Glyph 0x1F 0x41, Glyph 0x1F 0x42, Sgr 0x07, Glyph 0x07 0x43,
             Newline, Glyph 0x07 0x44] @ replicate 22 Newline"
    unfolding split rows_items.simps r0 r1 rest by (simp only: append.simps)
  then show ?thesis
    by (simp add: pass_items_def full_items_def cursor_items_def cursor_ne_def d
        del: upt_rec_numeral)
qed

lemma two_cell_items: "pass_items two_cell_stream
   = [Move 2 3, Sgr 0x1F, Glyph 0x1F 0x41, Glyph 0x1F 0x42]"
proof -
  let ?cur = "current two_cell_stream" and ?prv = "previous two_cell_stream"
  have d: "\<not> force_redraw two_cell_stream" "cols two_cell_stream = 6"
    "rows two_cell_stream = 24" "cursor two_cell_stream = prev_cursor two_cell_stream"
    "ansi_attr two_cell_stream = 0x07"
    "?cur 2 3 = \<lparr>character = 0x41, attribute = 0x1F\<rparr>"
    "?cur 2 4 = \<lparr>character = 0x42, attribute = 0x1F\<rparr>"
    "\<And>r c. ?prv r c = \<lparr>character = 0x20, attribute = 0x07\<rparr>"
    "\<And>r c. r \<noteq> 2 \<Longrightarrow> ?cur r c = \<lparr>character = 0x20, attribute = 0x07\<rparr>"
    "\<And>c. c \<noteq> 3 \<Longrightarrow> c \<noteq> 4 \<Longrightarrow> ?cur 2 c = \<lparr>character = 0x20, attribute = 0x07\<rparr>"
    by (simp_all add: two_cell_stream_def steady_stream_def connected_stream_def
        initial_stream_def blank_grid_def)
  have split: "[0..<24] = [0..<2] @ [2] @ [3..<24]"
    by (simp add: upt_conv_Cons)
  have ps: "List.product [0..<24] [0..<6]
      = List.product [0..<2] [0..<6] @ [(2, 0), (2, 1), (2, 2)] @ [(2, 3), (2, 4)]
        @ ((2, 5) # List.product [3..<24] [0..<6])"
    unfolding split product_append by (simp add: upt_conv_Cons)
  have before: "walk_items ?cur ?prv 6 a w (List.product [0..<2] [0..<6] @ [(2, 0), (2, 1), (2, 2)]) = []
      \<and> walk_end ?cur ?prv 6 a w (List.product [0..<2] [0..<6] @ [(2, 0), (2, 1), (2, 2)]) = (a, w)"
    for a w
    by (rule walk_same) (auto simp: d simp del: upt_rec_numeral)
  have "\<forall>p \<in> set (List.product [3..<24] [0..<6]). ?cur (fst p) (snd p) = ?prv (fst p) (snd p)"
    by (auto simp: d simp del: upt_rec_numeral)
  from walk_same[OF this]
  have after: "walk_items ?cur ?prv 6 a w (List.product [3..<24] [0..<6]) = []" for a w
    by blast
  have "walk_items ?cur ?prv 6 0x07 (-1, -1) (List.product [0..<24] [0..<6])
          = [Move 2 3, Sgr 0x1F, Glyph 0x1F 0x41, Glyph 0x1F 0x42]"
    unfolding ps
    apply (subst append_assoc[symmetric])
    apply (subst walk_append(1))
    apply (simp only: before fst_conv snd_conv append_Nil)
    apply (subst walk_append(1))
    apply (simp add: after d next_head_def del: upt_rec_numeral)
    done
  then show ?thesis
    by (simp add: pass_items_def diff_items_def cursor_items_def cursor_ne_def d
        del: upt_rec_numeral)
qed

theorem attribute_stickiness_witness:
  "pass_items three_col_stream
     = [CursorVis False, ClearScreen, Sgr 0x07,
        Sgr 0x1F, Glyph 0x1F 0x41, Glyph 0x1F 0x42, Sgr 0x07, Glyph 0x07 0x43,
        Newline, Glyph 0x07 0x44] @ replicate 22 Newline
   \<and> text_buffer (GenerateTextOutput three_col_stream)
       = items_bytes (pass_items three_col_stream)
   \<and> sticky (pass_items three_col_stream)
   \<and> pass_items two_cell_stream = [Move 2 3, Sgr 0x1F, Glyph 0x1F 0x41, Glyph 0x1F 0x42]
   \<and> text_buffer (GenerateTextOutput two_cell_stream)
       = items_bytes (pass_items two_cell_stream)
   \<and> sticky (pass_items two_cell_stream)"
  using attribute_stickiness [of three_col_stream] attribute_stickiness [of two_cell_stream]
    three_col_items two_cell_items
  by blast

section \<open>Input tokenizer\<close>

lemma atoi_wraps: "atoi [0x34, 0x32, 0x39, 0x34, 0x39, 0x36, 0x37, 0x32, 0x39, 0x37] = 1"
  by (simp add: atoi_def strtol_def)

text \<open>
  C8. Tokenizer keycode mapping. From the NORMAL state with an empty parameter buffer,
  the bytes \<open>1B 5B 41\<close> add exactly one keycode, \<open>0x4800\<close>, to the keyboard sink; the
  bytes \<open>1B 5B 32 30 7E\<close> add exactly one, \<open>0x4300\<close>; the byte \<open>01\<close> adds exactly one,
  \<open>0x1E01\<close>.
\<close>

theorem tokenizer_keycodes:
  "input_state s = NORMAL \<Longrightarrow> csi_params s = [] \<Longrightarrow>
     kbd (HandleKeyboardInput [0x1B, 0x5B, 0x41] s) = kbd s @ [0x4800]
   \<and> kbd (HandleKeyboardInput [0x1B, 0x5B, 0x32, 0x30, 0x7E] s) = kbd s @ [0x4300]
   \<and> kbd (HandleKeyboardInput [0x01] s) = kbd s @ [0x1E01]"
  by (simp add: HandleKeyboardInput_def ProcessInputByte_def csi_final_def csi_tilde_def
      atoi_def strtol_def InjectKey_def BIOS_AddKeyToBuffer_def ascii_scancode_def)

theorem tokenizer_keycodes_witness:
  "input_state initial_stream = NORMAL \<and> csi_params initial_stream = []
   \<and> kbd (HandleKeyboardInput [0x1B, 0x5B, 0x41] initial_stream) = [0x4800]
   \<and> kbd (HandleKeyboardInput [0x1B, 0x5B, 0x32, 0x30, 0x7E] initial_stream) = [0x4300]
   \<and> kbd (HandleKeyboardInput [0x01] initial_stream) = [0x1E01]"
  using tokenizer_keycodes [of initial_stream]
  by (simp add: initial_stream_def)

text \<open>
  C10. High-byte input is ignored. In the NORMAL state, a byte in \<open>0x80..0xFF\<close> leaves
  the whole object as it was: no key is injected, and the parser state and the parameter
  buffer are unchanged.
\<close>

theorem high_byte_ignored:
  "input_state s = NORMAL \<Longrightarrow> 0x80 \<le> b \<Longrightarrow>
     ProcessInputByte b s = s \<and> kbd (ProcessInputByte b s) = kbd s
     \<and> input_state (ProcessInputByte b s) = NORMAL
     \<and> csi_params (ProcessInputByte b s) = csi_params s"
  by (auto simp: ProcessInputByte_def word_le_nat_alt word_less_nat_alt)

theorem high_byte_ignored_witness:
  "input_state initial_stream = NORMAL \<and> (0x80 :: u8) \<le> 0xE9
   \<and> ProcessInputByte 0xE9 initial_stream = initial_stream
   \<and> kbd (ProcessInputByte 0xE9 initial_stream) = []"
  using high_byte_ignored [of initial_stream "0xE9"]
  by (simp add: initial_stream_def)

end
